theory Spec2Isabelle
  imports Complex_Main "HOL-Library.Log_Nat"
begin

section \<open>Values exchanged with the model\<close>

text \<open>
  The agent of \<^verbatim>\<open>src/agent.py\<close> works on what \<^verbatim>\<open>json.loads\<close> returns: Python values
  built from \<^verbatim>\<open>None\<close>, \<^verbatim>\<open>bool\<close>, \<^verbatim>\<open>int\<close>, \<^verbatim>\<open>float\<close>, \<^verbatim>\<open>str\<close>, \<^verbatim>\<open>list\<close> and \<^verbatim>\<open>dict\<close>.
  A Python \<^verbatim>\<open>float\<close> is an IEEE binary64 number: a rational, an infinity or a NaN
  (\<^verbatim>\<open>json.loads\<close> accepts \<^verbatim>\<open>Infinity\<close> and \<^verbatim>\<open>NaN\<close>). The sign of a zero is not kept: nothing
  the agent does with a float (\<^verbatim>\<open>abs\<close>, \<^verbatim>\<open>< 0\<close>, \<^verbatim>\<open>int\<close>, truth value) depends on it.
  A \<^verbatim>\<open>dict\<close> is the list of its items, keys distinct, in insertion order.
\<close>

datatype pyfloat = Fin rat | PInf | NInf | NaN

datatype json =
    JNull
  | JBool bool
  | JInt int
  | JFloat pyfloat
  | JStr string
  | JArr "json list"
  | JObj "(string \<times> json) list"

text \<open>
  Exceptions. \<open>KeyboardInterrupt\<close> is the only one that is not a Python \<^verbatim>\<open>Exception\<close>;
  \<open>MarkupError\<close> is what the console raises on a markup tag it cannot match, with the
  tag; \<open>External\<close> stands for whatever else a collaborator (inference backend, browser,
  image library, console, decoder) raises.
\<close>

datatype exn =
    KeyboardInterrupt
  | ValueError string
  | TypeError
  | AttributeError
  | KeyError
  | IndexError
  | OverflowError
  | MarkupError string
  | External string

section \<open>Python's float arithmetic\<close>

text \<open>
  \<^verbatim>\<open>_denormalize_x\<close>, \<^verbatim>\<open>_denormalize_y\<close> and the scroll branch compute
  \<^verbatim>\<open>int((v / 1000) * dimension)\<close> in binary64 arithmetic: each operation returns the
  exact result rounded to the nearest representable number, ties to the even significand.
  \<open>round_nearest\<close> is that rounding on a non-negative rational: 53 significant bits,
  and a quantum of at least \<open>2 ^ -1074\<close> (the subnormal range).
\<close>

definition pow2 :: "int \<Rightarrow> rat" where
  "pow2 e = (if 0 \<le> e then 2 ^ nat e else 1 / 2 ^ nat (- e))"

definition ilog2 :: "rat \<Rightarrow> int" where
  "ilog2 q = (case quotient_of q of (a, b) \<Rightarrow>
     (let d = bitlen a - bitlen b in if pow2 d \<le> q then d else d - 1))"

definition round_half_even :: "rat \<Rightarrow> int" where
  "round_half_even q =
     (let f = \<lfloor>q\<rfloor>; r = q - of_int f
      in if r < 1 / 2 then f else if 1 / 2 < r then f + 1 else if even f then f else f + 1)"

definition round_nearest :: "rat \<Rightarrow> rat" where
  "round_nearest q =
     (let e = max (ilog2 q - 52) (- 1074) in of_int (round_half_even (q / pow2 e)) * pow2 e)"

text \<open>
  \<open>to_double\<close> rounds an exact result; one that rounds to \<open>2 ^ 1024\<close> or more
  (binary exponent above 1023) overflows to an infinity (float multiplication and division).
\<close>

definition to_double :: "rat \<Rightarrow> pyfloat" where
  "to_double q =
     (if q = 0 then Fin 0
      else let r = round_nearest \<bar>q\<bar>
           in if 1024 \<le> ilog2 r then (if 0 < q then PInf else NInf)
              else Fin (if 0 < q then r else - r))"

text \<open>
  Where an \<^verbatim>\<open>int\<close> operand is involved Python raises \<^verbatim>\<open>OverflowError\<close> instead of
  returning an infinity: \<^verbatim>\<open>int / int\<close> (true division, correctly rounded) and the
  conversion of an \<^verbatim>\<open>int\<close> operand to \<^verbatim>\<open>float\<close>.
\<close>

definition checked_double :: "rat \<Rightarrow> exn + pyfloat" where
  "checked_double q =
     (case to_double q of Fin r \<Rightarrow> Inr (Fin r) | _ \<Rightarrow> Inl OverflowError)"

definition int_truediv :: "int \<Rightarrow> int \<Rightarrow> exn + pyfloat" where
  "int_truediv a b = checked_double (of_int a / of_int b)"

definition float_of_int :: "int \<Rightarrow> exn + pyfloat" where
  "float_of_int n = checked_double (of_int n)"

fun float_mul :: "pyfloat \<Rightarrow> pyfloat \<Rightarrow> pyfloat" where
  "float_mul (Fin a) (Fin b) = to_double (a * b)"
| "float_mul NaN _ = NaN"
| "float_mul _ NaN = NaN"
| "float_mul (Fin a) PInf = (if a = 0 then NaN else if 0 < a then PInf else NInf)"
| "float_mul (Fin a) NInf = (if a = 0 then NaN else if 0 < a then NInf else PInf)"
| "float_mul PInf (Fin b) = (if b = 0 then NaN else if 0 < b then PInf else NInf)"
| "float_mul NInf (Fin b) = (if b = 0 then NaN else if 0 < b then NInf else PInf)"
| "float_mul PInf PInf = PInf"
| "float_mul PInf NInf = NInf"
| "float_mul NInf PInf = NInf"
| "float_mul NInf NInf = PInf"

fun float_div :: "pyfloat \<Rightarrow> rat \<Rightarrow> pyfloat" where
  "float_div (Fin a) b = to_double (a / b)"
| "float_div PInf b = (if 0 < b then PInf else NInf)"
| "float_div NInf b = (if 0 < b then NInf else PInf)"
| "float_div NaN b = NaN"

text \<open>\<^verbatim>\<open>int(f)\<close> truncates toward zero and raises on an infinity or a NaN.\<close>

definition truncate_rat :: "rat \<Rightarrow> int" where
  "truncate_rat q = (if 0 \<le> q then \<lfloor>q\<rfloor> else \<lceil>q\<rceil>)"

fun int_of_float :: "pyfloat \<Rightarrow> exn + int" where
  "int_of_float (Fin q) = Inr (truncate_rat q)"
| "int_of_float NaN = Inl (ValueError ''cannot convert float NaN to integer'')"
| "int_of_float _ = Inl OverflowError"

section \<open>Python operations on decoded values\<close>

text \<open>
  The agent never checks the type of what it reads from an action, so each operation is
  given on every kind of value, with the exception Python raises where it does not apply.
\<close>

definition and_then :: "exn + 'a \<Rightarrow> ('a \<Rightarrow> exn + 'b) \<Rightarrow> exn + 'b" where
  "and_then r f = (case r of Inl e \<Rightarrow> Inl e | Inr v \<Rightarrow> f v)"

text \<open>\<^verbatim>\<open>d.get(key, default)\<close> on the items of a dict.\<close>

definition get :: "(string \<times> json) list \<Rightarrow> string \<Rightarrow> json \<Rightarrow> json" where
  "get items k dflt = (case map_of items k of None \<Rightarrow> dflt | Some v \<Rightarrow> v)"

fun truthy :: "json \<Rightarrow> bool" where
  "truthy JNull = False"
| "truthy (JBool b) = b"
| "truthy (JInt n) = (n \<noteq> 0)"
| "truthy (JFloat f) = (f \<noteq> Fin 0)"
| "truthy (JStr s) = (s \<noteq> [])"
| "truthy (JArr xs) = (xs \<noteq> [])"
| "truthy (JObj kvs) = (kvs \<noteq> [])"

text \<open>\<^verbatim>\<open>v[i]\<close> for a non-negative \<open>i\<close>; the keys of a decoded dict are strings.\<close>

fun subscript :: "json \<Rightarrow> nat \<Rightarrow> exn + json" where
  "subscript (JArr xs) i = (if i < length xs then Inr (xs ! i) else Inl IndexError)"
| "subscript (JStr s) i = (if i < length s then Inr (JStr [s ! i]) else Inl IndexError)"
| "subscript (JObj kvs) i = Inl KeyError"
| "subscript _ i = Inl TypeError"

fun len :: "json \<Rightarrow> exn + nat" where
  "len (JArr xs) = Inr (length xs)"
| "len (JStr s) = Inr (length s)"
| "len (JObj kvs) = Inr (length kvs)"
| "len _ = Inl TypeError"

definition NORMALIZED_SIZE :: int where
  "NORMALIZED_SIZE = 1000"

text \<open>\<^verbatim>\<open>v / NORMALIZED_SIZE\<close>; a \<^verbatim>\<open>bool\<close> is an \<^verbatim>\<open>int\<close>.\<close>

fun div_normalized :: "json \<Rightarrow> exn + pyfloat" where
  "div_normalized (JInt n) = int_truediv n NORMALIZED_SIZE"
| "div_normalized (JBool b) = int_truediv (if b then 1 else 0) NORMALIZED_SIZE"
| "div_normalized (JFloat f) = Inr (float_div f (of_int NORMALIZED_SIZE))"
| "div_normalized _ = Inl TypeError"

text \<open>\<^verbatim>\<open>f * n\<close> for a float and an int: the int is converted first.\<close>

definition mul_int :: "pyfloat \<Rightarrow> int \<Rightarrow> exn + pyfloat" where
  "mul_int f n = and_then (float_of_int n) (\<lambda>g. Inr (float_mul f g))"

fun float_abs :: "pyfloat \<Rightarrow> pyfloat" where
  "float_abs (Fin q) = Fin \<bar>q\<bar>"
| "float_abs NInf = PInf"
| "float_abs f = f"

fun py_abs :: "json \<Rightarrow> exn + json" where
  "py_abs (JInt n) = Inr (JInt \<bar>n\<bar>)"
| "py_abs (JBool b) = Inr (JInt (if b then 1 else 0))"
| "py_abs (JFloat f) = Inr (JFloat (float_abs f))"
| "py_abs _ = Inl TypeError"

text \<open>\<^verbatim>\<open>v < 0\<close>.\<close>

fun negative :: "json \<Rightarrow> exn + bool" where
  "negative (JInt n) = Inr (n < 0)"
| "negative (JBool b) = Inr False"
| "negative (JFloat (Fin q)) = Inr (q < 0)"
| "negative (JFloat NInf) = Inr True"
| "negative (JFloat f) = Inr False"
| "negative _ = Inl TypeError"

section \<open>Coordinate denormalization\<close>

text \<open>
  \<^verbatim>\<open>_denormalize_x\<close> and \<^verbatim>\<open>_denormalize_y\<close> (agent.py, lines 452 to 458), given what
  \<^verbatim>\<open>screen_size()\<close> returns: \<^verbatim>\<open>int((x / NORMALIZED_SIZE) * screen_size()[0])\<close>.
\<close>

definition denormalize_x :: "int \<times> int \<Rightarrow> json \<Rightarrow> exn + int" where
  "denormalize_x dims x =
     and_then (div_normalized x) (\<lambda>f. and_then (mul_int f (fst dims)) int_of_float)"

definition denormalize_y :: "int \<times> int \<Rightarrow> json \<Rightarrow> exn + int" where
  "denormalize_y dims y =
     and_then (div_normalized y) (\<lambda>f. and_then (mul_int f (snd dims)) int_of_float)"

text \<open>
  Lines 398 to 402 of \<^verbatim>\<open>_execute_action\<close>, run for every action before its kind is
  looked at:
  \<^verbatim>\<open>
    coordinate = action.get("coordinate", [0, 0])
    x = self._denormalize_x(coordinate[0]) if coordinate else 0
    y = self._denormalize_y(coordinate[1]) if len(coordinate) > 1 else 0
  \<close>
\<close>

definition denormalize_coordinate :: "int \<times> int \<Rightarrow> (string \<times> json) list \<Rightarrow> exn + int \<times> int" where
  "denormalize_coordinate dims action =
     (let coordinate = get action ''coordinate'' (JArr [JInt 0, JInt 0])
      in and_then (if truthy coordinate
                   then and_then (subscript coordinate 0) (denormalize_x dims)
                   else Inr 0)
           (\<lambda>x. and_then (len coordinate)
              (\<lambda>n. and_then (if 1 < n
                               then and_then (subscript coordinate 1) (denormalize_y dims)
                               else Inr 0)
                 (\<lambda>y. Inr (x, y)))))"

text \<open>
  The scroll branch (lines 435 to 441):
  \<^verbatim>\<open>
    actual_pixels = int((abs(pixels) / NORMALIZED_SIZE) * self._computer.screen_size()[1])
    if pixels < 0:
        actual_pixels = -actual_pixels
  \<close>
\<close>

definition scroll_pixels :: "int \<times> int \<Rightarrow> json \<Rightarrow> exn + int" where
  "scroll_pixels dims pixels =
     and_then (py_abs pixels) (\<lambda>a.
     and_then (div_normalized a) (\<lambda>f.
     and_then (mul_int f (snd dims)) (\<lambda>g.
     and_then (int_of_float g) (\<lambda>actual_pixels.
     and_then (negative pixels) (\<lambda>neg.
     Inr (if neg then - actual_pixels else actual_pixels))))))"

section \<open>The execution environment\<close>

text \<open>
  \<^verbatim>\<open>EnvState\<close> and the abstract class \<^verbatim>\<open>Computer\<close> of \<^verbatim>\<open>src/computers/computer.py\<close>.
  A computer is used through its operations only: \<^verbatim>\<open>screen_size()\<close>, and the operations
  that return an \<^verbatim>\<open>EnvState\<close>, one constructor of \<open>env_call\<close> each. An implementation
  is a state \<open>'c\<close> of its own and what each operation does to it: it returns a state of
  the page or raises. The agent passes \<^verbatim>\<open>text\<close> and \<^verbatim>\<open>keys\<close> on as it read them from the
  action, whatever their type.
\<close>

record env_state =
  screenshot :: string
  url :: string

datatype env_call =
    Current_state
  | Click_at int int
  | Double_click_at int int
  | Triple_click_at int int
  | Right_click_at int int
  | Middle_click_at int int
  | Hover_at int int
  | Drag_to int int
  | Type_text json
  | Key_combination json
  | Scroll int

record 'c computer =
  screen_size :: "'c \<Rightarrow> int \<times> int"
  perform :: "env_call \<Rightarrow> 'c \<Rightarrow> (exn + env_state) \<times> 'c"

text \<open>Every operation but the state query acts on the page.\<close>

definition dispatches :: "env_call list \<Rightarrow> env_call list" where
  "dispatches cs = filter (\<lambda>c. c \<noteq> Current_state) cs"

section \<open>The agent\<close>

text \<open>
  What \<^verbatim>\<open>BrowserAgent\<close> calls and does not implement: the computer; the inference call
  \<^verbatim>\<open>_call_ollama\<close> (an HTTP exchange), which returns the content and the thinking text or
  raises (what it writes to the console before it raises again is part of it);
  \<^verbatim>\<open>_prepare_screenshot\<close> (image resampling and base64); \<^verbatim>\<open>json.loads\<close>;
  \<^verbatim>\<open>time.sleep\<close>, which raises on some arguments; and the console.
  The reply of the inference backend is given for each call by its number: a run is
  deterministic, so a backend that answers from the messages it receives answers some such
  sequence, and the theorems hold for every sequence. \<^verbatim>\<open>_build_messages\<close> only assembles
  those messages. \<^verbatim>\<open>_save_screenshot\<close> does nothing (\<^verbatim>\<open>screenshot_dir\<close> is \<^verbatim>\<open>None\<close>, its
  default).
\<close>

text \<open>
  \<^verbatim>\<open>json.loads\<close> returns a value, raises \<^verbatim>\<open>JSONDecodeError\<close> with a message, or raises
  something else (a plain \<^verbatim>\<open>ValueError\<close> on an integer of too many digits,
  \<^verbatim>\<open>RecursionError\<close> on deep nesting).
\<close>

datatype loads_result = Loaded json | JSONDecodeError string | Raised exn

text \<open>
  The console interprets markup in what it is given and raises on text it cannot render,
  so every statement that writes to it is a call that may raise. A message is the data
  one statement (or two adjacent ones) interpolates:
  \<^item> \<open>Task_line\<close>: line 187, the query;
  \<^item> \<open>Interrupted_line\<close>: line 197;
  \<^item> \<open>Error_line\<close>: line 200, the exception caught;
  \<^item> \<open>Max_steps_line\<close>: line 218, \<^verbatim>\<open>max_steps\<close>;
  \<^item> \<open>Thinking_status\<close>: line 230, the status shown around the inference call;
  \<^item> \<open>Could_not_parse\<close>: lines 238 and 239, the first 500 characters of the response;
  \<^item> \<open>Action_table\<close>: line 243, \<^verbatim>\<open>_display_action\<close> (lines 460 to 473), the reasoning and
    the items of the action;
  \<^item> \<open>Answer_line\<close>: line 255, the \<^verbatim>\<open>text\<close> of the action;
  \<^item> \<open>Missing_action\<close>: line 389, the decoded value;
  \<^item> \<open>Parse_error_line\<close>: line 392, the message of the \<^verbatim>\<open>JSONDecodeError\<close>;
  \<^item> \<open>Unknown_action\<close>: line 449, the kind.
\<close>

datatype console_message =
    Task_line string
  | Interrupted_line
  | Error_line exn
  | Max_steps_line int
  | Thinking_status
  | Could_not_parse string
  | Action_table string "(string \<times> json) list"
  | Answer_line json
  | Missing_action json
  | Parse_error_line string
  | Unknown_action json

record 'c collaborators =
  computer :: "'c computer"
  call_ollama :: "nat \<Rightarrow> exn + string \<times> string"
  prepare_screenshot :: "string \<Rightarrow> exn + string"
  json_loads :: "string \<Rightarrow> loads_result"
  sleep :: "json \<Rightarrow> exn option"
  console :: "console_message \<Rightarrow> exn option"

record history_entry =
  entry_screenshot_b64 :: string
  entry_action :: json
  entry_reasoning :: string

text \<open>
  The fields of a \<^verbatim>\<open>BrowserAgent\<close> that a run reads or writes, and the world it acts on:
  the state of the computer, the operations invoked on it so far, oldest first, and the
  number of inference calls made.
\<close>

record 'c agent =
  query :: string
  max_steps :: int
  context_window :: int
  history :: "history_entry list"
  action_count :: int
  consecutive_failures :: int
  backend :: 'c
  calls :: "env_call list"
  inferences :: nat

definition max_consecutive_failures :: int where
  "max_consecutive_failures = 3"

text \<open>\<^verbatim>\<open>__init__\<close>, for a computer in state \<open>c\<close>.\<close>

definition init :: "string \<Rightarrow> int \<Rightarrow> int \<Rightarrow> 'c \<Rightarrow> 'c agent" where
  "init task steps window c =
     \<lparr>query = task, max_steps = steps, context_window = window, history = [],
      action_count = 0, consecutive_failures = 0, backend = c, calls = [], inferences = 0\<rparr>"

text \<open>Invoking an operation of the computer; the call is recorded, whether it raises or not.\<close>

definition invoke :: "'c collaborators \<Rightarrow> env_call \<Rightarrow> 'c agent \<Rightarrow> (exn + env_state) \<times> 'c agent" where
  "invoke d c s =
     (case perform (computer d) c (backend s) of
        (r, b) \<Rightarrow> (r, s\<lparr>backend := b, calls := calls s @ [c]\<rparr>))"

subsection \<open>Parsing the response\<close>

text \<open>
  \<^verbatim>\<open>str.strip()\<close> removes the characters for which \<^verbatim>\<open>str.isspace()\<close> holds from both ends;
  a \<open>char\<close> is a code point below 256.
\<close>

definition isspace :: "char \<Rightarrow> bool" where
  "isspace c = (of_char c \<in> {9, 10, 11, 12, 13, 28, 29, 30, 31, 32, 133, 160 :: nat})"

definition strip :: "string \<Rightarrow> string" where
  "strip s = rev (dropWhile isspace (rev (dropWhile isspace s)))"

fun substring :: "string \<Rightarrow> string \<Rightarrow> bool" where
  "substring p [] = (p = [])"
| "substring p (c # cs) = (take (length p) (c # cs) = p \<or> substring p cs)"

text \<open>
  \<^verbatim>\<open>"action" in action\<close>: a key of a dict, an element of a list, a substring of a string;
  \<^verbatim>\<open>TypeError\<close> on anything else.
\<close>

fun contains_action :: "json \<Rightarrow> exn + bool" where
  "contains_action (JObj kvs) = Inr (''action'' \<in> set (map fst kvs))"
| "contains_action (JArr xs) = Inr (JStr ''action'' \<in> set xs)"
| "contains_action (JStr s) = Inr (substring ''action'' s)"
| "contains_action _ = Inl TypeError"

text \<open>
  \<^verbatim>\<open>_parse_response\<close> (lines 377 to 393); the first component of the pair it returns.
  Only \<^verbatim>\<open>JSONDecodeError\<close> is caught; what the console raises on lines 389 and 392, and
  what else \<^verbatim>\<open>json.loads\<close> or the \<^verbatim>\<open>in\<close> test raises, leaves the function.
\<close>

definition parse_response :: "'c collaborators \<Rightarrow> string \<Rightarrow> exn + json option" where
  "parse_response d response =
     (let text = strip response
      in if text = [] then Inr None
         else case json_loads d text of
                Loaded action \<Rightarrow>
                  and_then (contains_action action)
                    (\<lambda>found. if found then Inr (Some action)
                       else (case console d (Missing_action action) of
                               Some e \<Rightarrow> Inl e
                             | None \<Rightarrow> Inr None))
              | JSONDecodeError msg \<Rightarrow>
                  (case console d (Parse_error_line msg) of
                     Some e \<Rightarrow> Inl e
                   | None \<Rightarrow> Inr None)
              | Raised e \<Rightarrow> Inl e)"

subsection \<open>Executing an action\<close>

text \<open>
  \<^verbatim>\<open>_execute_action\<close> (lines 395 to 450), on the items of the action.
\<close>

definition execute_action ::
  "'c collaborators \<Rightarrow> (string \<times> json) list \<Rightarrow> 'c agent \<Rightarrow> (exn + env_state) \<times> 'c agent" where
  "execute_action d action s =
     (let action_type = get action ''action'' JNull
      in case denormalize_coordinate (screen_size (computer d) (backend s)) action of
           Inl e \<Rightarrow> (Inl e, s)
         | Inr (x, y) \<Rightarrow>
             if action_type = JStr ''left_click'' then invoke d (Click_at x y) s
             else if action_type = JStr ''double_click'' then invoke d (Double_click_at x y) s
             else if action_type = JStr ''triple_click'' then invoke d (Triple_click_at x y) s
             else if action_type = JStr ''right_click'' then invoke d (Right_click_at x y) s
             else if action_type = JStr ''middle_click'' then invoke d (Middle_click_at x y) s
             else if action_type = JStr ''mouse_move'' then invoke d (Hover_at x y) s
             else if action_type = JStr ''left_click_drag'' then invoke d (Drag_to x y) s
             else if action_type = JStr ''type''
               then invoke d (Type_text (get action ''text'' (JStr []))) s
             else if action_type = JStr ''key''
               then invoke d (Key_combination (get action ''keys'' (JArr []))) s
             else if action_type = JStr ''scroll''
               then (case scroll_pixels (screen_size (computer d) (backend s))
                            (get action ''pixels'' (JInt 0)) of
                       Inl e \<Rightarrow> (Inl e, s)
                     | Inr actual_pixels \<Rightarrow> invoke d (Scroll actual_pixels) s)
             else if action_type = JStr ''wait''
               then (case sleep d (get action ''time'' (JInt 1)) of
                       Some e \<Rightarrow> (Inl e, s)
                     | None \<Rightarrow> invoke d Current_state s)
             else (case console d (Unknown_action action_type) of
                     Some e \<Rightarrow> (Inl e, s)
                   | None \<Rightarrow> invoke d Current_state s))"

subsection \<open>One step\<close>

text \<open>
  The two ways \<^verbatim>\<open>_run_one_step\<close> returns: \<^verbatim>\<open>{"done": True, "status": .., "reasoning": ..}\<close>
  and \<^verbatim>\<open>{"done": False, "state": ..}\<close>. The reasoning of a result is a value, or
  \<^verbatim>\<open>str(e)\<close> for an exception \<open>e\<close>.
\<close>

datatype reason = Reason json | Str_of exn

datatype step = Done json reason | Continue env_state

text \<open>Lines 267 to 274: the append and the eviction.\<close>

definition update_history :: "int \<Rightarrow> history_entry list \<Rightarrow> history_entry \<Rightarrow> history_entry list" where
  "update_history window h e =
     (let h' = h @ [e] in if window < int (length h') then tl h' else h')"

text \<open>
  The part of \<^verbatim>\<open>_run_one_step\<close> after the action is displayed (lines 245 to 276), on the
  items of the action.
\<close>

definition act_on ::
  "'c collaborators \<Rightarrow> string \<Rightarrow> string \<Rightarrow> (string \<times> json) list \<Rightarrow> 'c agent \<Rightarrow>
     (exn + step) \<times> 'c agent" where
  "act_on d b64 thinking act s =
     (if get act ''action'' JNull = JStr ''terminate''
      then (Inr (Done (get act ''status'' (JStr ''success'')) (Reason (JStr thinking))), s)
      else if get act ''action'' JNull = JStr ''answer''
      then (case console d (Answer_line (get act ''text'' (JStr []))) of
              Some e \<Rightarrow> (Inl e, s)
            | None \<Rightarrow> (Inr (Done (JStr ''success'') (Reason (get act ''text'' (JStr [])))), s))
      else (case execute_action d act s of
              (Inl e, s2) \<Rightarrow> (Inl e, s2)
            | (Inr new_state, s2) \<Rightarrow>
                (Inr (Continue new_state),
                 s2\<lparr>action_count := action_count s2 + 1,
                    history := update_history (context_window s2) (history s2)
                       \<lparr>entry_screenshot_b64 = b64, entry_action = JObj act,
                        entry_reasoning = thinking\<rparr>\<rparr>)))"

text \<open>
  \<^verbatim>\<open>_run_one_step\<close> (lines 221 to 276). \<^verbatim>\<open>_display_action\<close> calls \<^verbatim>\<open>action.get\<close>, which
  only a dict has, before it writes to the console.
\<close>

definition run_one_step :: "'c collaborators \<Rightarrow> 'c agent \<Rightarrow> env_state \<Rightarrow> (exn + step) \<times> 'c agent" where
  "run_one_step d s state =
     (case prepare_screenshot d (screenshot state) of
        Inl e \<Rightarrow> (Inl e, s)
      | Inr b64 \<Rightarrow>
          (case console d Thinking_status of
             Some e \<Rightarrow> (Inl e, s)
           | None \<Rightarrow>
               (let s1 = s\<lparr>inferences := Suc (inferences s)\<rparr>
                in case call_ollama d (inferences s) of
                     Inl e \<Rightarrow> (Inl e, s1)
                   | Inr (response, thinking) \<Rightarrow>
                       (case parse_response d response of
                          Inl e \<Rightarrow> (Inl e, s1)
                        | Inr None \<Rightarrow>
                            (case console d (Could_not_parse (take 500 response)) of
                               Some e \<Rightarrow> (Inl e, s1)
                             | None \<Rightarrow> (Inl (ValueError ''Failed to parse action''), s1))
                        | Inr (Some (JObj act)) \<Rightarrow>
                            (case console d (Action_table thinking act) of
                               Some e \<Rightarrow> (Inl e, s1)
                             | None \<Rightarrow> act_on d b64 thinking act s1)
                        | Inr (Some _) \<Rightarrow> (Inl AttributeError, s1)))))"

subsection \<open>The loop\<close>

record result =
  status :: json
  result_action_count :: int
  final_url :: string
  result_reasoning :: reason

definition make_result :: "'c agent \<Rightarrow> json \<Rightarrow> string \<Rightarrow> reason \<Rightarrow> result" where
  "make_result s st u r =
     \<lparr>status = st, result_action_count = action_count s, final_url = u, result_reasoning = r\<rparr>"

text \<open>
  What a step leaves alone; the loop below terminates because a step that raises keeps
  \<open>action_count\<close> and a step that continues increases it.
\<close>

lemma invoke_frame:
  assumes "invoke d c s = (r, s')"
  shows "max_steps s' = max_steps s" "context_window s' = context_window s"
    "history s' = history s" "action_count s' = action_count s"
    "consecutive_failures s' = consecutive_failures s" "inferences s' = inferences s"
    "calls s' = calls s @ [c]" "query s' = query s"
  using assms by (auto simp: invoke_def split: prod.splits)

lemma execute_action_frame:
  assumes "execute_action d a s = (r, s')"
  shows "max_steps s' = max_steps s" "context_window s' = context_window s"
    "history s' = history s" "action_count s' = action_count s"
    "consecutive_failures s' = consecutive_failures s" "inferences s' = inferences s"
  using assms
  by (auto simp: execute_action_def Let_def invoke_frame split: sum.splits prod.splits if_splits option.splits)

lemma act_on_frame:
  assumes "act_on d b64 thinking act s = (r, s')"
  shows "max_steps s' = max_steps s" "context_window s' = context_window s"
    "consecutive_failures s' = consecutive_failures s"
  using assms
  by (auto simp: act_on_def execute_action_frame
      split: sum.splits prod.splits if_splits option.splits)

lemma act_on_Inl:
  assumes "act_on d b64 thinking act s = (Inl e, s')"
  shows "action_count s' = action_count s" "history s' = history s"
  using assms
  by (auto simp: act_on_def execute_action_frame
      split: sum.splits prod.splits if_splits option.splits)

lemma act_on_Continue:
  assumes "act_on d b64 thinking act s = (Inr (Continue st'), s')"
  shows "action_count s' = action_count s + 1"
  using assms
  by (auto simp: act_on_def execute_action_frame
      split: sum.splits prod.splits if_splits option.splits)

lemma run_one_step_frame:
  assumes "run_one_step d s st = (r, s')"
  shows "max_steps s' = max_steps s" "context_window s' = context_window s"
    "consecutive_failures s' = consecutive_failures s"
  using assms
  by (auto simp: run_one_step_def Let_def act_on_frame
      split: sum.splits prod.splits if_splits option.splits json.splits)

lemma run_one_step_Inl:
  assumes "run_one_step d s st = (Inl e, s')"
  shows "action_count s' = action_count s" "history s' = history s"
  using assms
  by (auto simp: run_one_step_def Let_def act_on_Inl
      split: sum.splits prod.splits if_splits option.splits json.splits)

lemma run_one_step_Continue:
  assumes "run_one_step d s st = (Inr (Continue st'), s')"
  shows "action_count s' = action_count s + 1"
  using assms
  by (auto simp: run_one_step_def Let_def act_on_Continue
      split: sum.splits prod.splits if_splits option.splits json.splits)

text \<open>
  The handler of \<^verbatim>\<open>except Exception\<close> (lines 200 to 206) after a step of the loop has
  raised \<open>e\<close>: what it returns, or the agent and the state with which the loop goes on.
  An exception raised in the handler, by the console on line 200 or by
  \<^verbatim>\<open>current_state()\<close> on line 205, is not caught: \<^verbatim>\<open>run\<close> raises it.
\<close>

datatype 'c handled = Return "exn + result" "'c agent" | Retry "'c agent" env_state

definition handle_exception ::
  "'c collaborators \<Rightarrow> exn \<Rightarrow> 'c agent \<Rightarrow> env_state \<Rightarrow> 'c handled" where
  "handle_exception d e s state =
     (case console d (Error_line e) of
        Some e' \<Rightarrow> Return (Inl e') s
      | None \<Rightarrow>
          (let s2 = s\<lparr>consecutive_failures := consecutive_failures s + 1\<rparr>
           in if max_consecutive_failures \<le> consecutive_failures s2
              then Return (Inr (make_result s2 (JStr ''failure'') (url state) (Str_of e))) s2
              else (case invoke d Current_state s2 of
                      (Inl e', s3) \<Rightarrow> Return (Inl e') s3
                    | (Inr state', s3) \<Rightarrow> Retry s3 state')))"

lemma handle_exception_Retry:
  assumes "handle_exception d e s state = Retry s' state'"
  shows "max_steps s' = max_steps s" "action_count s' = action_count s"
    "consecutive_failures s' = consecutive_failures s + 1"
    "consecutive_failures s' < max_consecutive_failures"
    "context_window s' = context_window s" "history s' = history s"
  using assms
  by (auto simp: handle_exception_def Let_def invoke_frame
      split: option.splits if_splits prod.splits sum.splits)

text \<open>
  The \<^verbatim>\<open>while\<close> loop of \<^verbatim>\<open>run\<close> (lines 193 to 219) from the agent \<open>s\<close> and the current
  \<^verbatim>\<open>state\<close>. What the console raises in a handler (line 197) or after the loop (line 218)
  is raised by \<^verbatim>\<open>run\<close>.
\<close>

function run_loop :: "'c collaborators \<Rightarrow> 'c agent \<Rightarrow> env_state \<Rightarrow> (exn + result) \<times> 'c agent" where
  "run_loop d s state =
     (if action_count s < max_steps s
      then (case run_one_step d s state of
              (Inl e, s1) \<Rightarrow>
                if e = KeyboardInterrupt
                then (case console d Interrupted_line of
                        Some e' \<Rightarrow> (Inl e', s1)
                      | None \<Rightarrow>
                          (Inr (make_result s1 (JStr ''failure'') (url state)
                                  (Reason (JStr ''User interrupted''))), s1))
                else (case handle_exception d e s1 state of
                        Return r s2 \<Rightarrow> (r, s2)
                      | Retry s3 state' \<Rightarrow> run_loop d s3 state')
            | (Inr (Done st r), s1) \<Rightarrow> (Inr (make_result s1 st (url state) r), s1)
            | (Inr (Continue state'), s1) \<Rightarrow>
                run_loop d (s1\<lparr>consecutive_failures := 0\<rparr>) state')
      else (case console d (Max_steps_line (max_steps s)) of
              Some e \<Rightarrow> (Inl e, s)
            | None \<Rightarrow>
                (Inr (make_result s (JStr ''failure'') (url state)
                        (Reason (JStr ''Max steps reached''))), s)))"
  by pat_completeness auto
termination
proof (relation "measures [\<lambda>(d, s, state). nat (max_steps s - action_count s),
                           \<lambda>(d, s, state). nat (max_consecutive_failures - consecutive_failures s)]",
       goal_cases)
  case 1
  show ?case by simp
next
  case (2 d s state x y a x21 x22)
  from 2(2,3) have step: "run_one_step d s state = (Inl a, y)" by simp
  note h = 2(5)
  show ?case
    using run_one_step_Inl(1)[OF step] run_one_step_frame(1,3)[OF step]
      handle_exception_Retry(1-4)[OF h] by simp
next
  case (3 d s state x y b x2)
  then have step: "run_one_step d s state = (Inr (Continue x2), y)" by simp
  show ?case
    using run_one_step_Continue[OF step] run_one_step_frame(1)[OF step] 3(1) by simp
qed

text \<open>
  \<^verbatim>\<open>run\<close> (lines 185 to 219): the task is written to the console, the state is queried,
  then the loop runs.
\<close>

definition run :: "'c collaborators \<Rightarrow> 'c agent \<Rightarrow> (exn + result) \<times> 'c agent" where
  "run d s =
     (case console d (Task_line (query s)) of
        Some e \<Rightarrow> (Inl e, s)
      | None \<Rightarrow>
          (case invoke d Current_state s of
             (Inl e, s1) \<Rightarrow> (Inl e, s1)
           | (Inr state, s1) \<Rightarrow> run_loop d s1 state))"

declare run_loop.simps [simp del]

subsection \<open>Vocabulary of the claims\<close>

text \<open>
  A response from which \<^verbatim>\<open>_parse_response\<close> gets no action: it returns \<^verbatim>\<open>None\<close>.
\<close>

definition parse_fails :: "'c collaborators \<Rightarrow> string \<Rightarrow> bool" where
  "parse_fails d response = (parse_response d response = Inr None)"

text \<open>The action kinds of \<^verbatim>\<open>ACTION_SCHEMA\<close> (lines 48 to 152).\<close>

definition specified_kinds :: "string list" where
  "specified_kinds =
     [''left_click'', ''double_click'', ''triple_click'', ''right_click'', ''middle_click'',
      ''mouse_move'', ''left_click_drag'', ''type'', ''key'', ''scroll'', ''wait'', ''terminate'']"

subsection \<open>Stub collaborators\<close>

text \<open>
  Collaborators for running the agent on concrete inputs: a computer with the viewport
  \<^verbatim>\<open>SCREEN_SIZE = (1440, 900)\<close> of \<^verbatim>\<open>src/main.py\<close> on which every operation succeeds and
  returns the same page; an image preparation that returns its input; a sleep that never
  raises; an inference backend that plays a script.

  \<open>stub_loads\<close> is \<^verbatim>\<open>json.loads\<close> on the texts used below: the objects listed; the other
  texts passed to it below begin with a letter that starts no JSON value, for which
  \<^verbatim>\<open>json.loads\<close> raises \<^verbatim>\<open>JSONDecodeError\<close> with the message given.

  \<open>stub_console\<close> is the console on the messages used below. The statements of the
  agent interpolate their data into console markup, and none of them opens a tag named
  \<^verbatim>\<open>b\<close>: as the console does, the stub raises \<open>MarkupError\<close> on a message whose text holds
  the closing tag \<^verbatim>\<open>[/b]\<close>, and writes every other message. The text of a \<open>MarkupError\<close>
  quotes the tag, so that writing it raises again. Of a decoded value only the strings at
  its top are looked at (the values used below are flat).
\<close>

definition stub_state :: env_state where
  "stub_state = \<lparr>screenshot = ''png'', url = ''https://www.google.com''\<rparr>"

definition stub_computer :: "unit computer" where
  "stub_computer =
     \<lparr>screen_size = (\<lambda>c. (1440, 900)), perform = (\<lambda>call c. (Inr stub_state, c))\<rparr>"

definition stub_loads :: "string \<Rightarrow> loads_result" where
  \<open>stub_loads t =
     (if t = ''{"action":"left_click","coordinate":[500,500]}''
        then Loaded (JObj [(''action'', JStr ''left_click''),
                           (''coordinate'', JArr [JInt 500, JInt 500])])
      else if t = ''{"action":"type","text":"hello"}''
        then Loaded (JObj [(''action'', JStr ''type''), (''text'', JStr ''hello'')])
      else if t = ''{"action":"terminate","status":"success"}''
        then Loaded (JObj [(''action'', JStr ''terminate''), (''status'', JStr ''success'')])
      else if t = ''{"action":"fly"}''
        then Loaded (JObj [(''action'', JStr ''fly'')])
      else if t = ''{"action":"left_click"}''
        then Loaded (JObj [(''action'', JStr ''left_click'')])
      else if t = ''{"action":"answer","text":"42"}''
        then Loaded (JObj [(''action'', JStr ''answer''), (''text'', JStr ''42'')])
      else if t = ''{"action":"answer","text":"[/b]"}''
        then Loaded (JObj [(''action'', JStr ''answer''), (''text'', JStr ''[/b]'')])
      else if t = ''{"status":"success"}''
        then Loaded (JObj [(''status'', JStr ''success'')])
      else JSONDecodeError ''Expecting value: line 1 column 1 (char 0)'')\<close>

definition closing_tag :: string where
  "closing_tag = ''[/b]''"

definition rejects :: "bool \<Rightarrow> exn option" where
  "rejects tagged = (if tagged then Some (MarkupError closing_tag) else None)"

fun holds_tag :: "json \<Rightarrow> bool" where
  "holds_tag (JStr t) = substring closing_tag t"
| "holds_tag (JObj kvs) =
     list_ex (\<lambda>(k, v). substring closing_tag k \<or>
                (case v of JStr t \<Rightarrow> substring closing_tag t | _ \<Rightarrow> False)) kvs"
| "holds_tag _ = False"

fun stub_console :: "console_message \<Rightarrow> exn option" where
  "stub_console (Task_line q) = rejects (substring closing_tag q)"
| "stub_console (Error_line e) =
     (case e of
        MarkupError t \<Rightarrow> Some (MarkupError t)
      | ValueError m \<Rightarrow> rejects (substring closing_tag m)
      | External m \<Rightarrow> rejects (substring closing_tag m)
      | _ \<Rightarrow> None)"
| "stub_console (Could_not_parse r) = rejects (substring closing_tag r)"
| "stub_console (Action_table thinking act) =
     rejects (substring closing_tag thinking \<or> holds_tag (JObj act))"
| "stub_console (Answer_line v) = rejects (holds_tag v)"
| "stub_console (Missing_action v) = rejects (holds_tag v)"
| "stub_console (Parse_error_line m) = rejects (substring closing_tag m)"
| "stub_console (Unknown_action v) = rejects (holds_tag v)"
| "stub_console _ = None"

declare stub_console.simps [simp del]

definition stub :: "(nat \<Rightarrow> exn + string \<times> string) \<Rightarrow> unit collaborators" where
  "stub replies =
     \<lparr>computer = stub_computer, call_ollama = replies, prepare_screenshot = (\<lambda>b. Inr b),
      json_loads = stub_loads, sleep = (\<lambda>v. None), console = stub_console\<rparr>"

text \<open>A backend that gives the same reply to every call, and the script of the example.\<close>

definition always :: "string \<Rightarrow> string \<Rightarrow> nat \<Rightarrow> exn + string \<times> string" where
  "always response thinking n = Inr (response, thinking)"

definition scenario :: "nat \<Rightarrow> exn + string \<times> string" where
  \<open>scenario n =
     (if n = 0 then Inr (''{"action":"left_click","coordinate":[500,500]}'', ''click'')
      else if n = 1 then Inr (''{"action":"type","text":"hello"}'', ''type'')
      else Inr (''{"action":"terminate","status":"success"}'', ''done''))\<close>

section \<open>Properties of the float arithmetic\<close>

text \<open>
  Powers of two, the exponent found by \<open>ilog2\<close>, and the error of one rounding: at most
  half a unit in the last place, that is \<open>q / 2 ^ 53\<close>, or half the subnormal quantum.
\<close>

lemma pow2_power_int: "pow2 e = power_int 2 e"
  by (simp add: pow2_def power_int_def power_one_over)

lemma pow2_pos: "0 < pow2 e"
  by (simp add: pow2_power_int)

lemma pow2_mono: "a \<le> b \<Longrightarrow> pow2 a \<le> pow2 b"
  by (simp add: pow2_power_int power_int_increasing)

lemma pow2_diff: "pow2 (a - b) = pow2 a / pow2 b"
  by (simp add: pow2_power_int power_int_diff)

lemma pow2_nat: "0 \<le> e \<Longrightarrow> pow2 e = 2 ^ nat e"
  by (simp add: pow2_def)

lemma ilog2_le:
  assumes "0 < q"
  shows "pow2 (ilog2 q) \<le> q"
proof -
  obtain a b where qo: "quotient_of q = (a, b)" by (cases "quotient_of q")
  have b: "0 < b" by (rule quotient_of_denom_pos[OF qo])
  have q: "q = of_int a / of_int b" by (rule quotient_of_div[OF qo])
  have a: "0 < a" using assms b q by (simp add: zero_less_divide_iff)
  let ?d = "bitlen a - bitlen b"
  have "pow2 (?d - 1) \<le> q"
  proof -
    have la: "1 \<le> bitlen a" and lb: "1 \<le> bitlen b"
      using a b by (simp_all add: bitlen_alt_def)
    have "(2::int) ^ nat (bitlen a - 1) \<le> a" using bitlen_bounds[OF a] by simp
    then have "(of_int ((2::int) ^ nat (bitlen a - 1)) :: rat) \<le> of_int a"
      by (simp only: of_int_le_iff)
    then have 1: "pow2 (bitlen a - 1) \<le> of_int a"
      using la by (simp add: pow2_nat)
    have "b < 2 ^ nat (bitlen b)" using bitlen_bounds[OF b] by simp
    then have "(of_int b :: rat) < of_int ((2::int) ^ nat (bitlen b))"
      by (simp only: of_int_less_iff)
    then have 2: "of_int b \<le> pow2 (bitlen b)"
      using lb by (simp add: pow2_nat)
    have "pow2 (bitlen a - 1) / pow2 (bitlen b) \<le> of_int a / of_int b"
      using 1 2 b pow2_pos[of "bitlen a - 1"] by (intro frac_le) simp_all
    moreover have "pow2 (?d - 1) = pow2 (bitlen a - 1) / pow2 (bitlen b)"
      using pow2_diff[of "bitlen a - 1" "bitlen b"] by (simp add: algebra_simps)
    ultimately show ?thesis using q by simp
  qed
  then show ?thesis
    by (simp add: ilog2_def qo Let_def)
qed

lemma ilog2_less:
  assumes "0 \<le> r" and "r < pow2 k" and "- 1 \<le> k"
  shows "ilog2 r < k"
proof (cases "r = 0")
  case True
  have "bitlen 1 = 1" by (simp add: bitlen_alt_def)
  then show ?thesis using True assms(3) pow2_pos[of "-1"]
    by (simp add: ilog2_def Let_def not_le)
next
  case False
  with assms(1) have "0 < r" by simp
  from ilog2_le[OF this] assms(2) have "pow2 (ilog2 r) < pow2 k" by simp
  then show ?thesis
    using pow2_mono[of k "ilog2 r"] by (cases "ilog2 r < k") auto
qed

lemma round_half_even_err: "\<bar>of_int (round_half_even t) - t\<bar> \<le> 1 / 2"
proof -
  have "of_int \<lfloor>t\<rfloor> \<le> t" "t < of_int \<lfloor>t\<rfloor> + 1" by linarith+
  then show ?thesis
    by (auto simp: round_half_even_def Let_def)
qed

lemma round_half_even_nonneg: "0 \<le> t \<Longrightarrow> 0 \<le> round_half_even t"
  by (auto simp: round_half_even_def Let_def)

lemma round_nearest_nonneg: "0 \<le> q \<Longrightarrow> 0 \<le> round_nearest q"
  using pow2_pos[of "max (ilog2 q - 52) (- 1074)"]
  by (simp add: round_nearest_def Let_def round_half_even_nonneg less_imp_le)

lemma round_nearest_err:
  assumes "0 < q"
  shows "\<bar>round_nearest q - q\<bar> \<le> q / 2 ^ 53 + pow2 (- 1075)"
proof -
  let ?e = "max (ilog2 q - 52) (- 1074)"
  let ?m = "of_int (round_half_even (q / pow2 ?e)) :: rat"
  have P: "0 < pow2 ?e" by (rule pow2_pos)
  have "\<bar>?m - q / pow2 ?e\<bar> * pow2 ?e \<le> 1 / 2 * pow2 ?e"
    using round_half_even_err[of "q / pow2 ?e"] P by (intro mult_right_mono) simp_all
  moreover have "\<bar>?m - q / pow2 ?e\<bar> * pow2 ?e = \<bar>?m * pow2 ?e - q\<bar>"
  proof -
    have "\<bar>?m - q / pow2 ?e\<bar> * pow2 ?e = \<bar>(?m - q / pow2 ?e) * pow2 ?e\<bar>"
      using P by (simp add: abs_mult)
    also have "(?m - q / pow2 ?e) * pow2 ?e = ?m * pow2 ?e - q"
      using P by (simp add: field_simps)
    finally show ?thesis .
  qed
  ultimately have 1: "\<bar>round_nearest q - q\<bar> \<le> pow2 ?e / 2"
    by (simp add: round_nearest_def Let_def)
  have "pow2 ?e \<le> pow2 (ilog2 q - 52) + pow2 (- 1074)"
    using pow2_pos[of "ilog2 q - 52"] pow2_pos[of "- 1074"] by (cases "ilog2 q - 52 \<le> - 1074") (simp_all add: max_def)
  moreover have "pow2 (ilog2 q - 52) = pow2 (ilog2 q) / 2 ^ 52"
    using pow2_diff[of "ilog2 q" 52] by (simp add: pow2_nat)
  moreover have "pow2 (- 1074) = 2 * pow2 (- 1075)"
    using pow2_diff[of "- 1074" 1] by (simp add: pow2_nat)
  ultimately have "pow2 ?e / 2 \<le> pow2 (ilog2 q) / 2 ^ 53 + pow2 (- 1075)"
    by simp
  also have "\<dots> \<le> q / 2 ^ 53 + pow2 (- 1075)"
    using ilog2_le[OF assms] by (simp add: divide_right_mono)
  finally show ?thesis using 1 by linarith
qed

text \<open>
  A positive result below \<open>2 ^ 40\<close> does not overflow, and the three roundings of
  \<^verbatim>\<open>(x / 1000) * W\<close> (the quotient, the conversion of \<open>W\<close>, the product) move the result
  by less than a ten-thousandth for \<open>x\<close> on the grid and \<open>W\<close> up to \<open>2 ^ 32\<close>.
\<close>

lemma tiny_le: "pow2 (- 1075) \<le> 1 / 2 ^ 53"
  using pow2_mono[of "- 1075" "- 53"] by (simp add: pow2_def)

lemma to_double_near:
  assumes "0 < q" and "q \<le> 2 ^ 40"
  shows "\<exists>r. to_double q = Fin r \<and> 0 \<le> r \<and> \<bar>r - q\<bar> \<le> q / 2 ^ 53 + 1 / 2 ^ 53"
proof -
  let ?r = "round_nearest q"
  have nonneg: "0 \<le> ?r" using assms(1) by (simp add: round_nearest_nonneg)
  have err: "\<bar>?r - q\<bar> \<le> q / 2 ^ 53 + 1 / 2 ^ 53"
    using round_nearest_err[OF assms(1)] tiny_le by linarith
  have "q / 2 ^ 53 \<le> q" using assms(1) by (simp add: field_simps)
  with err assms(2) have "?r < 2 ^ 42" by (simp add: abs_le_iff)
  also have "(2::rat) ^ 42 \<le> pow2 1024"
    using pow2_mono[of 42 1024] by (simp add: pow2_nat)
  finally have "ilog2 ?r < 1024"
    using ilog2_less[OF nonneg, of 1024] by simp
  with assms(1) nonneg err show ?thesis
    by (simp add: to_double_def Let_def)
qed

lemma and_then_assoc: "and_then (and_then r f) g = and_then r (\<lambda>v. and_then (f v) g)"
  by (cases r) (simp_all add: and_then_def)

lemma and_then_Inr [simp]: "and_then (Inr v) f = f v"
  by (simp add: and_then_def)

lemma and_then_Inl [simp]: "and_then (Inl e) f = Inl e"
  by (simp add: and_then_def)

lemma scale_near:
  assumes "0 \<le> x" and "x \<le> 1000" and "0 < W" and "W \<le> 2 ^ 32"
  shows "\<exists>p. and_then (div_normalized (JInt x)) (\<lambda>f. mul_int f W) = Inr (Fin p) \<and> 0 \<le> p \<and>
           \<bar>p - of_int (x * W) / 1000\<bar> \<le> 1 / 10000"
proof -
  define V :: rat where "V = of_int W"
  have "(of_int 1 :: rat) \<le> of_int W" "(of_int W :: rat) \<le> of_int (2 ^ 32)"
    using assms(3,4) by (simp_all only: of_int_le_iff)
  then have V: "1 \<le> V" "V \<le> 4294967296" by (simp_all add: V_def)
  then have "0 < V" "V \<le> 2 ^ 40" by simp_all
  then obtain w where w: "to_double V = Fin w" "0 \<le> w"
    "\<bar>w - V\<bar> \<le> V / 2 ^ 53 + 1 / 2 ^ 53"
    using to_double_near[of V] by auto
  have fw: "float_of_int W = Inr (Fin w)"
    using w(1) by (simp add: float_of_int_def checked_double_def V_def)
  show ?thesis
  proof (cases "x = 0")
    case True
    then show ?thesis
      using fw by (simp add: int_truediv_def checked_double_def to_double_def mul_int_def
          NORMALIZED_SIZE_def)
  next
    case False
    define A :: rat where "A = of_int x / 1000"
    have "(of_int 1 :: rat) \<le> of_int x" "(of_int x :: rat) \<le> of_int 1000"
      using False assms(1,2) by (simp_all only: of_int_le_iff)
    then have A: "1 / 1000 \<le> A" "A \<le> 1" by (simp_all add: A_def)
    then have "0 < A" "A \<le> 2 ^ 40" by simp_all
    then obtain a where a: "to_double A = Fin a" "0 \<le> a"
      "\<bar>a - A\<bar> \<le> A / 2 ^ 53 + 1 / 2 ^ 53"
      using to_double_near[of A] by auto
    have "A / 2 ^ 53 \<le> 1 / 2 ^ 53"
      using A(2) by (intro divide_right_mono) simp_all
    moreover have "(1::rat) / 2 ^ 53 + 1 / 2 ^ 53 \<le> 1 / 1000000000000000" by simp
    ultimately have da: "\<bar>a - A\<bar> \<le> 1 / 1000000000000000"
      using a(3) by linarith
    have "V / 2 ^ 53 \<le> 4294967296 / 2 ^ 53"
      using V(2) by (intro divide_right_mono) simp_all
    moreover have "(4294967296::rat) / 2 ^ 53 + 1 / 2 ^ 53 \<le> 1 / 1000000" by simp
    ultimately have dw: "\<bar>w - V\<bar> \<le> 1 / 1000000"
      using w(3) by linarith
    have a_pos: "0 < a" and a_le: "a \<le> 2" using da A by linarith+
    have w_pos: "0 < w" and w_le: "w \<le> 4294967297"
      using dw V by linarith+
    have "\<bar>a * (w - V)\<bar> \<le> 2 * (1 / 1000000)"
      unfolding abs_mult using a_pos a_le dw by (intro mult_mono) simp_all
    moreover have "\<bar>(a - A) * V\<bar> \<le> 1 / 1000000000000000 * 4294967296"
      unfolding abs_mult using da V by (intro mult_mono) simp_all
    moreover have "a * w - A * V = a * (w - V) + (a - A) * V"
      by (simp add: algebra_simps)
    ultimately have prod: "\<bar>a * w - A * V\<bar> \<le> 1 / 100000"
      by linarith
    have aw_pos: "0 < a * w" using a_pos w_pos by simp
    have aw_le: "a * w \<le> 2 * 4294967297"
      using a_pos a_le w_pos w_le by (intro mult_mono) simp_all
    then have "a * w \<le> 2 ^ 40" by simp
    then obtain p where p: "to_double (a * w) = Fin p" "0 \<le> p"
      "\<bar>p - a * w\<bar> \<le> a * w / 2 ^ 53 + 1 / 2 ^ 53"
      using to_double_near[OF aw_pos] by auto
    have "a * w / 2 ^ 53 \<le> (2 * 4294967297) / 2 ^ 53"
      using aw_le by (intro divide_right_mono) simp_all
    moreover have "((2::rat) * 4294967297) / 2 ^ 53 + 1 / 2 ^ 53 \<le> 1 / 1000000" by simp
    ultimately have dp: "\<bar>p - a * w\<bar> \<le> 1 / 1000000" using p(3) by linarith
    have "\<bar>p - A * V\<bar> \<le> 1 / 10000"
      using dp prod by linarith
    moreover have "A * V = of_int (x * W) / 1000" by (simp add: A_def V_def)
    moreover have "and_then (div_normalized (JInt x)) (\<lambda>f. mul_int f W) = Inr (Fin p)"
      using a(1) fw p(1)
      by (simp add: int_truediv_def checked_double_def mul_int_def NORMALIZED_SIZE_def A_def)
    ultimately show ?thesis using p(2) by simp
  qed
qed

lemma denormalize_axis:
  assumes "0 \<le> x" and "x \<le> 1000" and "0 < W" and "W \<le> 2 ^ 32"
  shows "\<exists>r. and_then (div_normalized (JInt x)) (\<lambda>f. and_then (mul_int f W) int_of_float) = Inr r \<and>
           0 \<le> r \<and> r \<le> x * W div 1000 \<and>
           x * W div 1000 - (if 1000 dvd x * W then 1 else 0) \<le> r"
proof -
  obtain p where p: "and_then (div_normalized (JInt x)) (\<lambda>f. mul_int f W) = Inr (Fin p)"
    "0 \<le> p" "\<bar>p - of_int (x * W) / 1000\<bar> \<le> 1 / 10000"
    using scale_near[OF assms] by blast
  define k where "k = x * W div 1000"
  define m where "m = x * W mod 1000"
  define K :: rat where "K = of_int k"
  define M :: rat where "M = of_int m"
  have "x * W = 1000 * k + m" by (simp add: k_def m_def)
  then have "(of_int (x * W) :: rat) = 1000 * K + M"
    by (simp add: K_def M_def)
  then have split: "(of_int (x * W) :: rat) / 1000 = K + M / 1000" by simp
  have m: "0 \<le> m" "m \<le> 999" by (simp_all add: m_def)
  then have "(of_int 0 :: rat) \<le> of_int m" "(of_int m :: rat) \<le> of_int 999"
    by (simp_all only: of_int_le_iff)
  then have M: "0 \<le> M" "M \<le> 999" by (simp_all add: M_def)
  have upper: "p < K + 1"
    using p(3) split M by linarith
  have lower: "of_int (k - (if 1000 dvd x * W then 1 else 0)) \<le> p"
  proof (cases "1000 dvd x * W")
    case True
    then have "m = 0" by (simp add: m_def)
    then have "M = 0" by (simp add: M_def)
    with p(3) split have "K - 1 \<le> p" by linarith
    with True show ?thesis by (simp add: K_def)
  next
    case False
    then have "1 \<le> m" using m(1) by (simp add: m_def dvd_eq_mod_eq_0)
    then have "(of_int 1 :: rat) \<le> of_int m" by (simp only: of_int_le_iff)
    then have "1 \<le> M" by (simp add: M_def)
    with p(3) split have "K \<le> p" by linarith
    with False show ?thesis by (simp add: K_def)
  qed
  have res: "and_then (div_normalized (JInt x)) (\<lambda>f. and_then (mul_int f W) int_of_float) =
      Inr \<lfloor>p\<rfloor>"
    using p(1,2) and_then_assoc[of "div_normalized (JInt x)" "\<lambda>f. mul_int f W" int_of_float]
    by (simp add: truncate_rat_def)
  have "\<lfloor>p\<rfloor> \<le> k" using upper by (simp add: floor_le_iff K_def)
  moreover have "k - (if 1000 dvd x * W then 1 else 0) \<le> \<lfloor>p\<rfloor>"
    using lower by (simp only: le_floor_iff)
  moreover have "0 \<le> \<lfloor>p\<rfloor>" using p(2) by simp
  ultimately show ?thesis using res unfolding k_def by blast
qed

lemma checked_double_Inr:
  assumes "checked_double q = Inr f"
  shows "\<exists>r. f = Fin r \<and> to_double q = Fin r"
  using assms by (cases "to_double q") (auto simp: checked_double_def)

lemma scroll_zero:
  assumes "scroll_pixels dims (JInt 0) = Inr r"
  shows "r = 0"
proof -
  have zero: "int_truediv 0 NORMALIZED_SIZE = Inr (Fin 0)"
    by (simp add: int_truediv_def checked_double_def to_double_def)
  from assms obtain g where g: "float_of_int (snd dims) = Inr g"
    and r: "int_of_float (float_mul (Fin 0) g) = Inr r"
    by (auto simp: scroll_pixels_def zero mul_int_def and_then_def split: sum.splits)
  from g obtain q where "g = Fin q"
    using checked_double_Inr[of "of_int (snd dims)" g] by (auto simp: float_of_int_def)
  with r show ?thesis
    by (simp add: to_double_def truncate_rat_def)
qed

lemma to_double_nonneg:
  assumes "0 \<le> q" and "to_double q = Fin r"
  shows "0 \<le> r"
  using assms round_nearest_nonneg[of q]
  by (auto simp: to_double_def Let_def split: if_splits)

lemma scroll_magnitude_nonneg:
  assumes "0 \<le> H" and "0 \<le> n"
    and "and_then (div_normalized (JInt n)) (\<lambda>f. and_then (mul_int f H) int_of_float) = Inr r"
  shows "0 \<le> r"
proof -
  from assms(3) obtain f g where f: "int_truediv n NORMALIZED_SIZE = Inr f"
    and g: "float_of_int H = Inr g" and r: "int_of_float (float_mul f g) = Inr r"
    by (auto simp: and_then_def mul_int_def split: sum.splits)
  from f obtain a where a: "f = Fin a" "0 \<le> a"
    using assms(2) to_double_nonneg[of "of_int n / 1000"] checked_double_Inr[of "of_int n / 1000" f]
    by (auto simp: int_truediv_def NORMALIZED_SIZE_def)
  from g obtain b where b: "g = Fin b" "0 \<le> b"
    using assms(1) to_double_nonneg[of "of_int H"] checked_double_Inr[of "of_int H" g]
    by (auto simp: float_of_int_def)
  from r a b obtain p where "to_double (a * b) = Fin p" "r = truncate_rat p"
    by (cases "to_double (a * b)") auto
  with to_double_nonneg[of "a * b" p] a(2) b(2) show ?thesis
    by (simp add: truncate_rat_def)
qed

section \<open>Coordinate denormalization: the claims\<close>

text \<open>
  Claim C1, as corrected. For every normalized coordinate pair \<open>(x, y)\<close> with
  \<open>0 \<le> x, y \<le> 1000\<close> and every viewport \<open>(W, H)\<close> with \<open>0 < W, H \<le> 2 ^ 32\<close>, the
  denormalization done before a pointer action is dispatched succeeds and works on each
  axis on its own: it yields \<^verbatim>\<open>(int((x / 1000) * W), int((y / 1000) * H))\<close>, the float
  product truncated, not rounded. On each axis the result is \<open>x * W div 1000\<close> when
  \<open>x * W\<close> is not a multiple of 1000, and \<open>x * W div 1000\<close> or one less when it is
  (the float product of an exact quotient can fall just below it).
\<close>

theorem denormalize_truncates:
  assumes "0 \<le> x" and "x \<le> 1000" and "0 \<le> y" and "y \<le> 1000"
    and "0 < W" and "W \<le> 2 ^ 32" and "0 < H" and "H \<le> 2 ^ 32"
    and "map_of action ''coordinate'' = Some (JArr [JInt x, JInt y])"
  shows "\<exists>rx ry. denormalize_coordinate (W, H) action = Inr (rx, ry) \<and>
           denormalize_x (W, H) (JInt x) = Inr rx \<and> denormalize_y (W, H) (JInt y) = Inr ry \<and>
           0 \<le> rx \<and> rx \<le> x * W div 1000 \<and>
           x * W div 1000 - (if 1000 dvd x * W then 1 else 0) \<le> rx \<and>
           0 \<le> ry \<and> ry \<le> y * H div 1000 \<and>
           y * H div 1000 - (if 1000 dvd y * H then 1 else 0) \<le> ry"
proof -
  obtain rx where rx: "denormalize_x (W, H) (JInt x) = Inr rx" "0 \<le> rx"
    "rx \<le> x * W div 1000" "x * W div 1000 - (if 1000 dvd x * W then 1 else 0) \<le> rx"
    using denormalize_axis[OF assms(1,2,5,6)] unfolding denormalize_x_def by auto
  obtain ry where ry: "denormalize_y (W, H) (JInt y) = Inr ry" "0 \<le> ry"
    "ry \<le> y * H div 1000" "y * H div 1000 - (if 1000 dvd y * H then 1 else 0) \<le> ry"
    using denormalize_axis[OF assms(3,4,7,8)] unfolding denormalize_y_def by auto
  have "denormalize_coordinate (W, H) action = Inr (rx, ry)"
    using assms(9) rx(1) ry(1) by (simp add: denormalize_coordinate_def get_def)
  with rx ry show ?thesis by blast
qed

theorem denormalize_truncates_witness:
  "\<exists>rx ry. denormalize_coordinate (1440, 900)
              [(''action'', JStr ''left_click''), (''coordinate'', JArr [JInt 500, JInt 500])] =
            Inr (rx, ry) \<and>
           denormalize_x (1440, 900) (JInt 500) = Inr rx \<and>
           denormalize_y (1440, 900) (JInt 500) = Inr ry \<and>
           0 \<le> rx \<and> rx \<le> 720 \<and> 719 \<le> rx \<and> 0 \<le> ry \<and> ry \<le> 450 \<and> 449 \<le> ry"
  using denormalize_truncates[of 500 500 1440 900
      "[(''action'', JStr ''left_click''), (''coordinate'', JArr [JInt 500, JInt 500])]"]
  by simp

text \<open>
  The claim as first stated asks for \<open>(round(x * W / 1000), round(y * H / 1000))\<close>. At
  \<open>(x, y) = (1, 1)\<close> on the 1440 by 900 viewport that is \<open>(round 1.44, round 0.9) = (1, 1)\<close>;
  the agent computes \<open>(1, 0)\<close>.
\<close>

theorem denormalize_rounds_counterexample:
  "denormalize_coordinate (1440, 900)
     [(''action'', JStr ''left_click''), (''coordinate'', JArr [JInt 1, JInt 1])] = Inr (1, 0) \<and>
   (round (1 * 1440 / 1000 :: rat), round (1 * 900 / 1000 :: rat)) = (1, 1)"
  by code_simp

text \<open>
  The result can be one below the exact quotient: \<open>570 / 1000\<close> rounds down to a float
  below 0.57, and its product with 100 to a float below 57.
\<close>

lemma denormalize_below_exact_quotient:
  "denormalize_x (100, 100) (JInt 570) = Inr 56 \<and> (570 * 100 div 1000 :: int) = 57"
  by code_simp

text \<open>
  Claim C8. Scroll denormalization is odd in its argument: for every pixel count \<open>p\<close>
  (zero included) and every viewport, the scroll amount computed for \<open>- p\<close> is the
  negation of the one computed for \<open>p\<close>, and both raise or neither does. Only the
  magnitude is scaled by the height of the viewport, and the sign of \<open>p\<close> is kept: the
  amount is \<open>sgn p\<close> times its own magnitude.
\<close>

theorem scroll_pixels_odd:
  "scroll_pixels dims (JInt (- p)) = map_sum id uminus (scroll_pixels dims (JInt p)) \<and>
   (0 \<le> snd dims \<longrightarrow> (\<forall>r. scroll_pixels dims (JInt p) = Inr r \<longrightarrow> r = sgn p * \<bar>r\<bar>))"
proof
  let ?m = "and_then (div_normalized (JInt \<bar>p\<bar>))
              (\<lambda>f. and_then (mul_int f (snd dims)) int_of_float)"
  have unfold: "scroll_pixels dims (JInt q) =
      and_then (and_then (div_normalized (JInt \<bar>q\<bar>))
                  (\<lambda>f. and_then (mul_int f (snd dims)) int_of_float))
        (\<lambda>n. Inr (if q < 0 then - n else n))" for q
    by (simp add: scroll_pixels_def and_then_assoc)
  show "scroll_pixels dims (JInt (- p)) = map_sum id uminus (scroll_pixels dims (JInt p))"
  proof (cases "p = 0")
    case True
    then show ?thesis
      using scroll_zero[of dims] by (cases "scroll_pixels dims (JInt 0)") auto
  next
    case False
    then show ?thesis
      unfolding unfold by (cases ?m) auto
  qed
  show "0 \<le> snd dims \<longrightarrow> (\<forall>r. scroll_pixels dims (JInt p) = Inr r \<longrightarrow> r = sgn p * \<bar>r\<bar>)"
  proof (intro impI allI)
    fix r assume H: "0 \<le> snd dims" and r: "scroll_pixels dims (JInt p) = Inr r"
    show "r = sgn p * \<bar>r\<bar>"
    proof (cases "p = 0")
      case True
      with r scroll_zero[of dims r] show ?thesis by simp
    next
      case False
      from r obtain n where n: "?m = Inr n" "r = (if p < 0 then - n else n)"
        unfolding unfold by (cases ?m) auto
      have "0 \<le> n" by (rule scroll_magnitude_nonneg[OF H _ n(1)]) simp
      with n(2) False show ?thesis by (auto simp: sgn_if)
    qed
  qed
qed

theorem scroll_pixels_odd_witness:
  "scroll_pixels (1440, 900) (JInt (- 15)) = Inr (- 13) \<and>
   scroll_pixels (1440, 900) (JInt 15) = Inr 13 \<and>
   (0::int) \<le> snd (1440 :: int, 900) \<and> (13::int) = sgn 15 * \<bar>13\<bar>"
proof -
  have up: "scroll_pixels (1440, 900) (JInt 15) = Inr 13" by code_simp
  with scroll_pixels_odd[of "(1440, 900)" 15] show ?thesis by simp
qed

section \<open>The stubs, unfolded\<close>

lemma stub_simps [simp]:
  "call_ollama (stub r) = r"
  "prepare_screenshot (stub r) b = Inr b"
  "json_loads (stub r) = stub_loads"
  "console (stub r) = stub_console"
  "computer (stub r) = stub_computer"
  "screen_size stub_computer c = (1440, 900)"
  "perform stub_computer call c = (Inr stub_state, c)"
  by (simp_all add: stub_def stub_computer_def)

lemma init_simps [simp]:
  "query (init q n w c) = q"
  "max_steps (init q n w c) = n" "context_window (init q n w c) = w"
  "history (init q n w c) = []" "action_count (init q n w c) = 0"
  "consecutive_failures (init q n w c) = 0" "backend (init q n w c) = c"
  "calls (init q n w c) = []" "inferences (init q n w c) = 0"
  by (simp_all add: init_def)

section \<open>Parsing: the claim\<close>

text \<open>
  Claim C2, as corrected. For every raw response text, \<^verbatim>\<open>_parse_response\<close> returns a parse
  failure (no action) when the stripped text is empty; when it is not decodable
  (\<^verbatim>\<open>JSONDecodeError\<close>) and the console writes the diagnostic; and when it decodes to an
  object without the \<^verbatim>\<open>action\<close> key and the console writes the diagnostic. An object that
  has the \<^verbatim>\<open>action\<close> key is returned as the action, unchanged, whatever its kind and its
  other fields: the kind, the companion fields and extra fields are not checked here (the
  schema is handed to the inference backend). What happens when the console raises on a
  diagnostic, or \<^verbatim>\<open>json.loads\<close> raises something else, is not part of this statement.
\<close>

theorem parse_response_checks:
  "(strip response = [] \<longrightarrow> parse_response d response = Inr None) \<and>
   (strip response \<noteq> [] \<and> json_loads d (strip response) = JSONDecodeError msg \<and>
    console d (Parse_error_line msg) = None
      \<longrightarrow> parse_response d response = Inr None) \<and>
   (strip response \<noteq> [] \<and> json_loads d (strip response) = Loaded (JObj items) \<and>
    ''action'' \<notin> fst ` set items \<and> console d (Missing_action (JObj items)) = None
      \<longrightarrow> parse_response d response = Inr None) \<and>
   (strip response \<noteq> [] \<and> json_loads d (strip response) = Loaded (JObj items) \<and>
    ''action'' \<in> fst ` set items
      \<longrightarrow> parse_response d response = Inr (Some (JObj items)))"
  by (auto simp: parse_response_def Let_def)

theorem parse_response_checks_witness:
  \<open>parse_response (stub scenario) ''  '' = Inr None \<and>
   parse_response (stub scenario) ''I cannot do that'' = Inr None \<and>
   parse_response (stub scenario) ''{"status":"success"}'' = Inr None \<and>
   parse_response (stub scenario) '' {"action":"fly"} '' =
     Inr (Some (JObj [(''action'', JStr ''fly'')]))\<close>
proof -
  have blank: "strip ''  '' = []" by code_simp
  have prose: "strip ''I cannot do that'' = ''I cannot do that''"
    "stub_loads ''I cannot do that'' =
       JSONDecodeError ''Expecting value: line 1 column 1 (char 0)''"
    "stub_console (Parse_error_line ''Expecting value: line 1 column 1 (char 0)'') = None"
    by code_simp+
  have other: \<open>strip ''{"status":"success"}'' = ''{"status":"success"}''\<close>
    \<open>stub_loads ''{"status":"success"}'' = Loaded (JObj [(''status'', JStr ''success'')])\<close>
    "stub_console (Missing_action (JObj [(''status'', JStr ''success'')])) = None"
    by code_simp+
  have fly: \<open>strip '' {"action":"fly"} '' = ''{"action":"fly"}''\<close>
    \<open>stub_loads ''{"action":"fly"}'' = Loaded (JObj [(''action'', JStr ''fly'')])\<close>
    by code_simp+
  show ?thesis
    using parse_response_checks[of "''  ''" "stub scenario"]
      parse_response_checks[of "''I cannot do that''" "stub scenario"
        "''Expecting value: line 1 column 1 (char 0)''"]
      parse_response_checks[of \<open>''{"status":"success"}''\<close> "stub scenario" _
        "[(''status'', JStr ''success'')]"]
      parse_response_checks[of \<open>'' {"action":"fly"} ''\<close> "stub scenario" _
        "[(''action'', JStr ''fly'')]"]
    by (simp add: blank prose other fly)
qed

text \<open>
  The claim as first stated also asks for a parse failure on an unknown kind and on a
  missing companion field, and for no default action. An object of the unknown kind
  \<^verbatim>\<open>fly\<close> is returned as an action; so is a \<^verbatim>\<open>left_click\<close> without \<^verbatim>\<open>coordinate\<close>, and the
  step dispatches it as a click at the default \<^verbatim>\<open>[0, 0]\<close>.
\<close>

theorem parse_response_counterexample:
  \<open>parse_response (stub scenario) ''{"action":"fly"}'' =
     Inr (Some (JObj [(''action'', JStr ''fly'')])) \<and>
   parse_response (stub scenario) ''{"action":"left_click"}'' =
     Inr (Some (JObj [(''action'', JStr ''left_click'')])) \<and>
   calls (snd (run_one_step (stub (always ''{"action":"left_click"}'' [])) (init ''task'' 50 5 ())
                 stub_state)) = [Click_at 0 0]\<close>
  by code_simp

section \<open>The loop: the claims\<close>

subsection \<open>Steps that end the loop\<close>

lemma run_loop_done:
  assumes "action_count s < max_steps s"
    and "run_one_step d s state = (Inr (Done st r), s1)"
  shows "run_loop d s state = (Inr (make_result s1 st (url state) r), s1)"
  using assms by (subst run_loop.simps) simp

lemma run_one_step_parsed:
  assumes "prepare_screenshot d (screenshot state) = Inr b64"
    and "console d Thinking_status = None"
    and "call_ollama d (inferences s) = Inr (response, thinking)"
    and "parse_response d response = Inr (Some (JObj act))"
    and "console d (Action_table thinking act) = None"
  shows "run_one_step d s state = act_on d b64 thinking act (s\<lparr>inferences := Suc (inferences s)\<rparr>)"
  using assms by (simp add: run_one_step_def)

lemma act_on_terminate:
  assumes "map_of act ''action'' = Some (JStr ''terminate'')"
  shows "act_on d b64 thinking act s =
           (Inr (Done (get act ''status'' (JStr ''success'')) (Reason (JStr thinking))), s)"
  using assms by (simp add: act_on_def get_def)

lemma act_on_answer:
  assumes "map_of act ''action'' = Some (JStr ''answer'')"
    and "console d (Answer_line (get act ''text'' (JStr []))) = None"
  shows "act_on d b64 thinking act s =
           (Inr (Done (JStr ''success'') (Reason (get act ''text'' (JStr [])))), s)"
  using assms by (simp add: act_on_def get_def)

text \<open>
  When the console writes the task and the closing line, a run with \<open>max_steps = 0\<close> ends
  after the initial state query (assumed to return) with a failure result, an action count
  of 0 and the reasoning \<^verbatim>\<open>Max steps reached\<close>, and no inference call is made.
\<close>

lemma max_steps_zero_when_printed:
  assumes "console d (Task_line task) = None"
    and "console d (Max_steps_line 0) = None"
    and "perform (computer d) Current_state c = (Inr state, c')"
  shows "run d (init task 0 window c) =
           (Inr \<lparr>status = JStr ''failure'', result_action_count = 0, final_url = url state,
                  result_reasoning = Reason (JStr ''Max steps reached'')\<rparr>,
            (init task 0 window c)\<lparr>backend := c', calls := [Current_state]\<rparr>)"
  using assms
  by (simp add: run_def invoke_def init_def run_loop.simps make_result_def)

text \<open>
  Claim C7. If \<open>max_steps = 0\<close>, the loop is to end at once with a failure result whose
  \<open>action_count\<close> is 0 and whose reasoning is the max-steps message, without an inference
  call. The code breaks this on a query that the console cannot render: line 187 writes
  the query before anything else, and with the query \<^verbatim>\<open>click [/b]\<close> the run raises
  \<open>MarkupError\<close> there; no result is returned and the state is not even queried.
\<close>

theorem max_steps_zero_markup_raises:
  "run (stub scenario) (init ''click [/b]'' 0 5 ()) =
     (Inl (MarkupError ''[/b]''), init ''click [/b]'' 0 5 ())"
  by code_simp

text \<open>
  When the console writes the status and the table of the action, a step taken on a
  response that parses to a \<^verbatim>\<open>terminate\<close> action with status \<^verbatim>\<open>success\<close> ends the loop with
  a success result, and the agent is left as it was but for the count of inference calls.
\<close>

lemma terminate_ends_loop_when_printed:
  assumes "action_count s < max_steps s"
    and "prepare_screenshot d (screenshot state) = Inr b64"
    and "console d Thinking_status = None"
    and "call_ollama d (inferences s) = Inr (response, thinking)"
    and "parse_response d response = Inr (Some (JObj act))"
    and "console d (Action_table thinking act) = None"
    and "map_of act ''action'' = Some (JStr ''terminate'')"
    and "map_of act ''status'' = Some (JStr ''success'')"
  shows "run_loop d s state =
           (Inr \<lparr>status = JStr ''success'', result_action_count = action_count s,
                  final_url = url state, result_reasoning = Reason (JStr thinking)\<rparr>,
            s\<lparr>inferences := Suc (inferences s)\<rparr>)"
proof -
  have "get act ''status'' (JStr ''success'') = JStr ''success''"
    using assms(8) by (simp add: get_def)
  then have "run_one_step d s state =
      (Inr (Done (JStr ''success'') (Reason (JStr thinking))),
       s\<lparr>inferences := Suc (inferences s)\<rparr>)"
    using run_one_step_parsed[OF assms(2-6)] act_on_terminate[OF assms(7)] by simp
  from run_loop_done[OF assms(1) this] show ?thesis
    by (simp add: make_result_def)
qed

text \<open>
  Claim C4. If the model returns a valid \<^verbatim>\<open>terminate\<close> action with status \<^verbatim>\<open>success\<close>, the
  loop is to end at once with a success result, whatever budget remains, with no further
  dispatch. The code breaks this on a reasoning text that the console cannot render:
  \<^verbatim>\<open>_display_action\<close> (line 243) writes the reasoning and the action before the test for
  \<^verbatim>\<open>terminate\<close> (line 246). With the reasoning \<^verbatim>\<open>all done [/b]\<close> the step raises
  \<open>MarkupError\<close>; the handler writes the error (line 200), the console raises again,
  outside the \<^verbatim>\<open>try\<close>, and the run raises instead of returning success.
\<close>

theorem terminate_markup_raises:
  \<open>run (stub (always ''{"action":"terminate","status":"success"}'' ''all done [/b]''))
     (init ''task'' 50 5 ()) =
   (Inl (MarkupError ''[/b]''),
    (init ''task'' 50 5 ())\<lparr>calls := [Current_state], inferences := 1\<rparr>)\<close>
  by code_simp

text \<open>
  When the console writes the status, the table of the action and the answer, a step
  taken on a response that parses to an \<^verbatim>\<open>answer\<close> action ends the loop with a success
  result whose reasoning is the \<^verbatim>\<open>text\<close> of the action, and the agent is left as it was but
  for the count of inference calls.
\<close>

lemma answer_ends_loop_when_printed:
  assumes "action_count s < max_steps s"
    and "prepare_screenshot d (screenshot state) = Inr b64"
    and "console d Thinking_status = None"
    and "call_ollama d (inferences s) = Inr (response, thinking)"
    and "parse_response d response = Inr (Some (JObj act))"
    and "console d (Action_table thinking act) = None"
    and "map_of act ''action'' = Some (JStr ''answer'')"
    and "console d (Answer_line (get act ''text'' (JStr []))) = None"
  shows "run_loop d s state =
           (Inr \<lparr>status = JStr ''success'', result_action_count = action_count s,
                  final_url = url state,
                  result_reasoning = Reason (get act ''text'' (JStr []))\<rparr>,
            s\<lparr>inferences := Suc (inferences s)\<rparr>)"
proof -
  have "run_one_step d s state =
      (Inr (Done (JStr ''success'') (Reason (get act ''text'' (JStr [])))),
       s\<lparr>inferences := Suc (inferences s)\<rparr>)"
    using run_one_step_parsed[OF assms(2-6)] act_on_answer[OF assms(7,8)] by simp
  from run_loop_done[OF assms(1) this] show ?thesis
    by (simp add: make_result_def)
qed

text \<open>
  Claim C10. For every parsed action whose \<^verbatim>\<open>action\<close> is \<^verbatim>\<open>answer\<close>, the loop is to end at
  once with a success result whose reasoning is the \<^verbatim>\<open>text\<close> of the action, with no
  dispatch, no increment of the action counter and no history entry. The code breaks this
  on a text that the console cannot render: \<^verbatim>\<open>_display_action\<close> (line 243) writes the
  fields of the action, and line 255 the text. For the action
  \<^verbatim>\<open>{"action":"answer","text":"[/b]"}\<close> the step raises \<open>MarkupError\<close>; the handler writes
  the error (line 200), the console raises again, outside the \<^verbatim>\<open>try\<close>, and the run raises
  instead of returning success with that text.
\<close>

theorem answer_markup_raises:
  \<open>run (stub (always ''{"action":"answer","text":"[/b]"}'' [])) (init ''task'' 50 5 ()) =
   (Inl (MarkupError ''[/b]''),
    (init ''task'' 50 5 ())\<lparr>calls := [Current_state], inferences := 1\<rparr>)\<close>
  by code_simp

subsection \<open>Turns that fail\<close>

lemma run_one_step_parse_fails:
  assumes "prepare_screenshot d (screenshot state) = Inr b64"
    and "console d Thinking_status = None"
    and "call_ollama d (inferences s) = Inr (response, thinking)"
    and "parse_fails d response"
    and "console d (Could_not_parse (take 500 response)) = None"
  shows "run_one_step d s state =
           (Inl (ValueError ''Failed to parse action''), s\<lparr>inferences := Suc (inferences s)\<rparr>)"
  using assms by (simp add: run_one_step_def parse_fails_def)

lemma run_loop_retry:
  assumes "action_count s < max_steps s"
    and "run_one_step d s state = (Inl e, s1)" and "e \<noteq> KeyboardInterrupt"
    and "console d (Error_line e) = None"
    and "consecutive_failures s1 + 1 < max_consecutive_failures"
    and "perform (computer d) Current_state (backend s1) = (Inr state', c)"
  shows "run_loop d s state =
           run_loop d (s1\<lparr>consecutive_failures := consecutive_failures s1 + 1, backend := c,
                          calls := calls s1 @ [Current_state]\<rparr>) state'"
  using assms
  by (subst run_loop.simps) (simp add: handle_exception_def invoke_def Let_def)

lemma run_loop_give_up:
  assumes "action_count s < max_steps s"
    and "run_one_step d s state = (Inl e, s1)" and "e \<noteq> KeyboardInterrupt"
    and "console d (Error_line e) = None"
    and "max_consecutive_failures \<le> consecutive_failures s1 + 1"
  shows "run_loop d s state =
           (Inr \<lparr>status = JStr ''failure'', result_action_count = action_count s1,
                  final_url = url state, result_reasoning = Str_of e\<rparr>,
            s1\<lparr>consecutive_failures := consecutive_failures s1 + 1\<rparr>)"
  using assms
  by (subst run_loop.simps) (simp add: handle_exception_def Let_def make_result_def)

text \<open>
  When the console writes every message of the three turns, and screenshot preparation and
  the state query return, three consecutive responses from which no action is parsed end
  the loop with a failure result whose reasoning is the text of the error; the action
  counter and the history are as before, and the two state queries before the retries are
  all that is called on the computer.
\<close>

lemma three_parse_failures_when_printed:
  fixes s :: "'c agent"
  assumes budget: "action_count s < max_steps s"
    and fresh: "consecutive_failures s = 0"
    and prepare: "\<And>b. \<exists>b64. prepare_screenshot d b = Inr b64"
    and query: "\<And>c. \<exists>st c'. perform (computer d) Current_state c = (Inr st, c')"
    and spinner: "console d Thinking_status = None"
    and error: "console d (Error_line (ValueError ''Failed to parse action'')) = None"
    and replies: "\<And>i. i < 3 \<Longrightarrow>
        \<exists>response thinking. call_ollama d (inferences s + i) = Inr (response, thinking) \<and>
           parse_fails d response \<and> console d (Could_not_parse (take 500 response)) = None"
  shows "\<exists>res s'. run_loop d s state = (Inr res, s') \<and>
           status res = JStr ''failure'' \<and>
           result_reasoning res = Str_of (ValueError ''Failed to parse action'') \<and>
           result_action_count res = action_count s \<and> action_count s' = action_count s \<and>
           history s' = history s \<and> inferences s' = inferences s + 3 \<and>
           calls s' = calls s @ [Current_state, Current_state]"
proof -
  let ?e = "ValueError ''Failed to parse action''"
  have turn: "run_one_step d t st = (Inl ?e, t\<lparr>inferences := Suc (inferences t)\<rparr>)"
    if inf: "inferences t = inferences s + i" and lt: "i < 3" for t st i
  proof -
    obtain b64 where p: "prepare_screenshot d (screenshot st) = Inr b64"
      using prepare by blast
    obtain response thinking where
      r: "call_ollama d (inferences t) = Inr (response, thinking)" "parse_fails d response"
        "console d (Could_not_parse (take 500 response)) = None"
      using replies[OF lt] inf by auto
    show ?thesis by (rule run_one_step_parse_fails[OF p spinner r])
  qed
  have e1: "run_one_step d s state = (Inl ?e, s\<lparr>inferences := Suc (inferences s)\<rparr>)"
    using turn[of s 0 state] by simp
  obtain st1 c1 where q1: "perform (computer d) Current_state (backend s) = (Inr st1, c1)"
    using query by blast
  define s1 where "s1 = s\<lparr>inferences := Suc (inferences s), consecutive_failures := 1,
    backend := c1, calls := calls s @ [Current_state]\<rparr>"
  have l1: "run_loop d s state = run_loop d s1 st1"
    using run_loop_retry[OF budget e1 _ error] q1 fresh
    by (simp add: s1_def max_consecutive_failures_def)
  have e2: "run_one_step d s1 st1 = (Inl ?e, s1\<lparr>inferences := Suc (inferences s1)\<rparr>)"
    using turn[of s1 1 st1] by (simp add: s1_def)
  obtain st2 c2 where q2: "perform (computer d) Current_state c1 = (Inr st2, c2)"
    using query by blast
  define s2 where "s2 = s\<lparr>inferences := Suc (Suc (inferences s)), consecutive_failures := 2,
    backend := c2, calls := calls s @ [Current_state, Current_state]\<rparr>"
  have b1: "action_count s1 < max_steps s1" using budget by (simp add: s1_def)
  have l2: "run_loop d s1 st1 = run_loop d s2 st2"
    using run_loop_retry[OF b1 e2 _ error, of st2 c2] q2
    by (simp add: s1_def s2_def max_consecutive_failures_def)
  have e3: "run_one_step d s2 st2 = (Inl ?e, s2\<lparr>inferences := Suc (inferences s2)\<rparr>)"
    using turn[of s2 2 st2] by (simp add: s2_def)
  have b2: "action_count s2 < max_steps s2" using budget by (simp add: s2_def)
  have l3: "run_loop d s2 st2 =
      (Inr \<lparr>status = JStr ''failure'', result_action_count = action_count s,
             final_url = url st2, result_reasoning = Str_of ?e\<rparr>,
       s2\<lparr>inferences := Suc (inferences s2), consecutive_failures := 3\<rparr>)"
    using run_loop_give_up[OF b2 e3 _ error]
    by (simp add: s2_def max_consecutive_failures_def)
  show ?thesis
    unfolding l1 l2 l3 by (simp add: s2_def)
qed

text \<open>
  Claim C3. If the inference client yields an unparseable response on three consecutive
  turns, the loop is to end with a failure result, with no increment of the action
  counter, a state query before each retry and no action dispatched. The code breaks this
  on a response that the console cannot render: line 239 writes the raw response. With
  the response \<^verbatim>\<open>no [/b] json\<close> the first step raises \<open>MarkupError\<close>; the handler writes
  the error (line 200), the console raises again, outside the \<^verbatim>\<open>try\<close>, and the run raises
  on the first turn, after one inference call, instead of returning a failure result
  after three.
\<close>

theorem parse_failure_markup_raises:
  "run (stub (always ''no [/b] json'' [])) (init ''task'' 50 5 ()) =
     (Inl (MarkupError ''[/b]''),
      (init ''task'' 50 5 ())\<lparr>calls := [Current_state], inferences := 1\<rparr>)"
  by code_simp

subsection \<open>Turns that dispatch\<close>

lemma act_on_dispatch:
  assumes "get act ''action'' JNull \<noteq> JStr ''terminate''"
    and "get act ''action'' JNull \<noteq> JStr ''answer''"
    and "execute_action d act s = (Inr state', s2)"
  shows "act_on d b64 thinking act s =
           (Inr (Continue state'),
            s2\<lparr>action_count := action_count s2 + 1,
               history := update_history (context_window s2) (history s2)
                  \<lparr>entry_screenshot_b64 = b64, entry_action = JObj act,
                   entry_reasoning = thinking\<rparr>\<rparr>)"
  using assms by (simp add: act_on_def)

lemma run_loop_continue:
  assumes "action_count s < max_steps s"
    and "run_one_step d s state = (Inr (Continue state'), s1)"
  shows "run_loop d s state = run_loop d (s1\<lparr>consecutive_failures := 0\<rparr>) state'"
  using assms by (subst run_loop.simps) simp

lemma execute_action_unknown:
  assumes kind: "get act ''action'' JNull \<notin> JStr ` set specified_kinds"
    and coord: "denormalize_coordinate (screen_size (computer d) (backend s)) act = Inr (x, y)"
    and written: "console d (Unknown_action (get act ''action'' JNull)) = None"
  shows "execute_action d act s = invoke d Current_state s"
  using assms by (auto simp: execute_action_def specified_kinds_def Let_def)

text \<open>
  Claim C5, as corrected. For every parsed action whose kind is not among the specified
  kinds and is not \<^verbatim>\<open>answer\<close>, whose coordinate denormalizes without error (as it does
  when the action has none), and whose turn the console writes (the status, the table of
  the action, the line on the unknown kind), the turn dispatches no action: the state is
  queried once, and if that query returns, the step does not raise, so the failure counter
  is not incremented (the loop resets it to zero). The action counter is incremented by
  one and a history entry is appended, as on every step that returns a new state. What
  happens when the console raises is not part of this statement.
\<close>

theorem unknown_kind_turn:
  assumes budget: "action_count s < max_steps s"
    and prepare: "prepare_screenshot d (screenshot state) = Inr b64"
    and spinner: "console d Thinking_status = None"
    and reply: "call_ollama d (inferences s) = Inr (response, thinking)"
    and parsed: "parse_response d response = Inr (Some (JObj act))"
    and table: "console d (Action_table thinking act) = None"
    and kind: "get act ''action'' JNull \<notin> JStr ` set specified_kinds"
      "get act ''action'' JNull \<noteq> JStr ''answer''"
    and written: "console d (Unknown_action (get act ''action'' JNull)) = None"
    and coord: "denormalize_coordinate (screen_size (computer d) (backend s)) act = Inr (x, y)"
    and query: "perform (computer d) Current_state (backend s) = (Inr state', c)"
    and s': "s' = s\<lparr>inferences := Suc (inferences s), backend := c,
                     calls := calls s @ [Current_state],
                     action_count := action_count s + 1,
                     history := update_history (context_window s) (history s)
                        \<lparr>entry_screenshot_b64 = b64, entry_action = JObj act,
                         entry_reasoning = thinking\<rparr>\<rparr>"
  shows "run_one_step d s state = (Inr (Continue state'), s') \<and>
         run_loop d s state = run_loop d (s'\<lparr>consecutive_failures := 0\<rparr>) state'"
proof -
  let ?s1 = "s\<lparr>inferences := Suc (inferences s)\<rparr>"
  have not_terminate: "get act ''action'' JNull \<noteq> JStr ''terminate''"
    using kind(1) by (auto simp: specified_kinds_def)
  have "execute_action d act ?s1 = invoke d Current_state ?s1"
    using execute_action_unknown[of act d ?s1 x y] kind(1) coord written by simp
  then have "execute_action d act ?s1 =
      (Inr state', ?s1\<lparr>backend := c, calls := calls s @ [Current_state]\<rparr>)"
    using query by (simp add: invoke_def)
  from act_on_dispatch[OF not_terminate kind(2) this]
  have step: "run_one_step d s state = (Inr (Continue state'), s')"
    using run_one_step_parsed[OF prepare spinner reply parsed table] by (simp add: s')
  with run_loop_continue[OF budget step] show ?thesis by simp
qed

theorem unknown_kind_turn_witness:
  \<open>run_one_step (stub (always ''{"action":"fly"}'' [])) (init ''task'' 50 5 ()) stub_state =
     (Inr (Continue stub_state),
      (init ''task'' 50 5 ())\<lparr>inferences := 1, calls := [Current_state], action_count := 1,
         history := [\<lparr>entry_screenshot_b64 = ''png'',
                      entry_action = JObj [(''action'', JStr ''fly'')],
                      entry_reasoning = []\<rparr>]\<rparr>) \<and>
   run_loop (stub (always ''{"action":"fly"}'' [])) (init ''task'' 50 5 ()) stub_state =
     run_loop (stub (always ''{"action":"fly"}'' []))
       ((init ''task'' 50 5 ())\<lparr>inferences := 1, calls := [Current_state], action_count := 1,
          history := [\<lparr>entry_screenshot_b64 = ''png'',
                       entry_action = JObj [(''action'', JStr ''fly'')],
                       entry_reasoning = []\<rparr>],
          consecutive_failures := 0\<rparr>) stub_state\<close>
proof -
  let ?d = \<open>stub (always ''{"action":"fly"}'' [])\<close>
  let ?s = "init ''task'' 50 5 ()"
  let ?act = "[(''action'', JStr ''fly'')]"
  have 1: "action_count ?s < max_steps ?s" by simp
  have 2: "prepare_screenshot ?d (screenshot stub_state) = Inr ''png''"
    by (simp add: stub_state_def)
  have 3: "console ?d Thinking_status = None" by code_simp
  have 4: \<open>call_ollama ?d (inferences ?s) = Inr (''{"action":"fly"}'', [])\<close>
    by (simp add: always_def)
  have 5: \<open>parse_response ?d ''{"action":"fly"}'' = Inr (Some (JObj ?act))\<close>
    by code_simp
  have 6: "console ?d (Action_table [] ?act) = None" by code_simp
  have 7: "get ?act ''action'' JNull \<notin> JStr ` set specified_kinds"
    by (simp add: get_def specified_kinds_def)
  have 8: "get ?act ''action'' JNull \<noteq> JStr ''answer''"
    by (simp add: get_def)
  have 9: "console ?d (Unknown_action (get ?act ''action'' JNull)) = None" by code_simp
  have 10: "denormalize_coordinate (screen_size (computer ?d) (backend ?s)) ?act = Inr (0, 0)"
    by simp code_simp
  have 11: "perform (computer ?d) Current_state (backend ?s) = (Inr stub_state, ())"
    by simp
  from unknown_kind_turn[OF 1 2 3 4 5 6 7 8 9 10 11 refl] show ?thesis
    by (simp add: update_history_def init_def)
qed

text \<open>
  The claim as first stated says that the action counter does not increment on such a
  turn. On the unknown kind \<^verbatim>\<open>fly\<close> the step queries the state, dispatches nothing and
  returns, and the counter goes from 0 to 1.
\<close>

theorem unknown_kind_counterexample:
  \<open>action_count (init ''task'' 50 5 ()) = 0 \<and>
   fst (run_one_step (stub (always ''{"action":"fly"}'' [])) (init ''task'' 50 5 ()) stub_state) =
     Inr (Continue stub_state) \<and>
   calls (snd (run_one_step (stub (always ''{"action":"fly"}'' [])) (init ''task'' 50 5 ())
                 stub_state)) = [Current_state] \<and>
   action_count (snd (run_one_step (stub (always ''{"action":"fly"}'' [])) (init ''task'' 50 5 ())
                        stub_state)) = 1\<close>
  by code_simp

subsection \<open>The history\<close>

lemma update_history_length:
  assumes "0 \<le> window" and "int (length h) \<le> window"
  shows "int (length (update_history window h e)) \<le> window"
  using assms by (auto simp: update_history_def Let_def)

lemma foldl_update_history:
  assumes "0 \<le> window" and "int (length h) \<le> window"
  shows "foldl (update_history window) h es = drop (length h + length es - nat window) (h @ es)"
  using assms(2)
proof (induction es arbitrary: h)
  case Nil
  then show ?case by simp
next
  case (Cons e es)
  show ?case
  proof (cases "window < int (length h) + 1")
    case True
    with Cons.prems assms(1) have len: "length h = nat window" by linarith
    have upd: "update_history window h e = tl (h @ [e])"
      using True by (simp add: update_history_def Let_def)
    show ?thesis
    proof (cases h)
      case Nil
      with len have w: "nat window = 0" by simp
      have "int (length ([] :: history_entry list)) \<le> window" using assms(1) by simp
      from Cons.IH[OF this] upd Nil w show ?thesis by simp
    next
      case (Cons a list)
      with len have list: "Suc (length list) = nat window" by simp
      have "int (length (list @ [e])) \<le> window" using list assms(1) by simp
      from Cons.IH[OF this] have "foldl (update_history window) (list @ [e]) es =
          drop (length es) (list @ e # es)"
        using list by simp
      moreover have "length h + length (e # es) - nat window = Suc (length es)"
        using Cons list by simp
      ultimately show ?thesis
        using upd Cons by simp
    qed
  next
    case False
    then have upd: "update_history window h e = h @ [e]"
      by (simp add: update_history_def Let_def)
    have "int (length (h @ [e])) \<le> window" using False by simp
    from Cons.IH[OF this] upd show ?thesis by simp
  qed
qed

lemma run_one_step_history_cases:
  "history (snd (run_one_step d s state)) = history s \<or>
   (\<exists>e. history (snd (run_one_step d s state)) =
          update_history (context_window s) (history s) e)"
  by (auto simp: run_one_step_def act_on_def Let_def execute_action_frame
      split: sum.splits prod.splits if_splits option.splits json.splits)

lemma run_one_step_history:
  assumes "0 \<le> context_window s" and "int (length (history s)) \<le> context_window s"
  shows "int (length (history (snd (run_one_step d s state)))) \<le> context_window s"
  using run_one_step_history_cases[of d s state] assms update_history_length[OF assms]
  by auto

lemma run_loop_history:
  "0 \<le> context_window s \<Longrightarrow> int (length (history s)) \<le> context_window s \<Longrightarrow>
   int (length (history (snd (run_loop d s state)))) \<le> context_window s"
proof (induction d s state rule: run_loop.induct)
  case (1 d s state)
  show ?case
  proof (cases "action_count s < max_steps s")
    case False
    with "1.prems" show ?thesis
      by (subst run_loop.simps) (simp split: option.splits)
  next
    case True
    obtain r s1 where step: "run_one_step d s state = (r, s1)"
      by (cases "run_one_step d s state")
    have cw1: "context_window s1 = context_window s"
      by (rule run_one_step_frame(2)[OF step])
    have h1: "int (length (history s1)) \<le> context_window s"
      using run_one_step_history[OF "1.prems", of d state] step by simp
    show ?thesis
    proof (cases r)
      case (Inl e)
      show ?thesis
      proof (cases "e = KeyboardInterrupt")
        case True
        with \<open>action_count s < max_steps s\<close> step Inl h1 show ?thesis
          by (subst run_loop.simps) (simp split: option.splits)
      next
        case False
        show ?thesis
        proof (cases "handle_exception d e s1 state")
          case (Return q s2)
          then have "history s2 = history s1"
            by (auto simp: handle_exception_def Let_def invoke_frame
                split: option.splits if_splits prod.splits sum.splits)
          with \<open>action_count s < max_steps s\<close> step Inl False Return h1 show ?thesis
            by (subst run_loop.simps) simp
        next
          case (Retry s3 state')
          have "int (length (history (snd (run_loop d s3 state')))) \<le> context_window s3"
            using "1.IH"(1)[OF \<open>action_count s < max_steps s\<close> step[symmetric] Inl False Retry]
              handle_exception_Retry(5,6)[OF Retry] h1 cw1 "1.prems"(1) by simp
          with \<open>action_count s < max_steps s\<close> step Inl False Retry
            handle_exception_Retry(5)[OF Retry] cw1 show ?thesis
            by (subst run_loop.simps) simp
        qed
      qed
    next
      case (Inr st)
      show ?thesis
      proof (cases st)
        case (Done x y)
        with True step Inr h1 show ?thesis
          by (subst run_loop.simps) simp
      next
        case (Continue b)
        have "int (length (history (snd (run_loop d (s1\<lparr>consecutive_failures := 0\<rparr>) b))))
            \<le> context_window (s1\<lparr>consecutive_failures := 0\<rparr>)"
          using "1.IH"(2)[OF True step[symmetric] Inr Continue] h1 cw1 "1.prems"(1) by simp
        with True step Inr Continue cw1 show ?thesis
          by (subst run_loop.simps) simp
      qed
    qed
  qed
qed

text \<open>
  Claim C6. The history is a first-in first-out sliding window, for a window
  \<open>context_window \<ge> 0\<close>. A step leaves the history as it was or appends one entry with
  \<open>update_history\<close>; when the history holds at most \<open>context_window\<close> entries it still does
  after every step, and at the end of the loop. Appending entries \<open>es\<close> one by one to an
  empty history leaves the last \<open>context_window\<close> of them, in the order of insertion: after
  \<open>context_window + 1\<close> appends the oldest entry is gone and the others remain.
\<close>

theorem history_sliding_window:
  assumes "0 \<le> context_window s" and "int (length (history s)) \<le> context_window s"
  shows "(history (snd (run_one_step d s state)) = history s \<or>
          (\<exists>e. history (snd (run_one_step d s state)) =
                 update_history (context_window s) (history s) e)) \<and>
         int (length (history (snd (run_one_step d s state)))) \<le> context_window s \<and>
         int (length (history (snd (run_loop d s state)))) \<le> context_window s \<and>
         foldl (update_history (context_window s)) [] es =
           drop (length es - nat (context_window s)) es \<and>
         (length es = nat (context_window s) + 1 \<longrightarrow>
            foldl (update_history (context_window s)) [] es = tl es)"
proof -
  have fold: "foldl (update_history (context_window s)) [] es =
      drop (length es - nat (context_window s)) es"
    using foldl_update_history[OF assms(1), of "[]" es] assms(1) by simp
  moreover have "length es = nat (context_window s) + 1 \<longrightarrow>
      foldl (update_history (context_window s)) [] es = tl es"
    unfolding fold by (simp add: drop_Suc)
  ultimately show ?thesis
    using run_one_step_history_cases[of d s state] run_one_step_history[OF assms]
      run_loop_history[OF assms] by blast
qed

theorem history_sliding_window_witness:
  "int (length (history (snd (run_one_step (stub scenario) (init ''task'' 50 2 ())
                               stub_state)))) \<le> 2 \<and>
   int (length (history (snd (run_loop (stub scenario) (init ''task'' 50 2 ())
                               stub_state)))) \<le> 2 \<and>
   foldl (update_history 2) []
     [\<lparr>entry_screenshot_b64 = ''a'', entry_action = JNull, entry_reasoning = ''1''\<rparr>,
      \<lparr>entry_screenshot_b64 = ''b'', entry_action = JNull, entry_reasoning = ''2''\<rparr>,
      \<lparr>entry_screenshot_b64 = ''c'', entry_action = JNull, entry_reasoning = ''3''\<rparr>] =
     [\<lparr>entry_screenshot_b64 = ''b'', entry_action = JNull, entry_reasoning = ''2''\<rparr>,
      \<lparr>entry_screenshot_b64 = ''c'', entry_action = JNull, entry_reasoning = ''3''\<rparr>]"
proof -
  have 1: "0 \<le> context_window (init ''task'' 50 2 ())" by simp
  have 2: "int (length (history (init ''task'' 50 2 ()))) \<le> context_window (init ''task'' 50 2 ())"
    by simp
  from history_sliding_window[OF 1 2, of "stub scenario" stub_state
      "[\<lparr>entry_screenshot_b64 = ''a'', entry_action = JNull, entry_reasoning = ''1''\<rparr>,
        \<lparr>entry_screenshot_b64 = ''b'', entry_action = JNull, entry_reasoning = ''2''\<rparr>,
        \<lparr>entry_screenshot_b64 = ''c'', entry_action = JNull, entry_reasoning = ''3''\<rparr>]"]
  show ?thesis by simp
qed

subsection \<open>The example\<close>

lemma strip_texts:
  \<open>strip ''{"action":"left_click","coordinate":[500,500]}'' =
     ''{"action":"left_click","coordinate":[500,500]}''\<close>
  \<open>strip ''{"action":"type","text":"hello"}'' = ''{"action":"type","text":"hello"}''\<close>
  \<open>strip ''{"action":"terminate","status":"success"}'' =
     ''{"action":"terminate","status":"success"}''\<close>
  by code_simp+

lemma scenario_coordinates:
  "denormalize_coordinate (1440, 900)
     [(''action'', JStr ''left_click''), (''coordinate'', JArr [JInt 500, JInt 500])] =
   Inr (720, 450)"
  "denormalize_coordinate (1440, 900) [(''action'', JStr ''type''), (''text'', JStr ''hello'')] =
   Inr (0, 0)"
  by code_simp+

text \<open>
  Claim C9. On a 1440 by 900 viewport, with collaborators that work (the environment,
  the image preparation, and the console on the task, the status and the three actions
  with their reasoning) and a step budget above two, for a model emitting in order
  \<^verbatim>\<open>{"action":"left_click","coordinate":[500,500]}\<close>, \<^verbatim>\<open>{"action":"type","text":"hello"}\<close> and
  \<^verbatim>\<open>{"action":"terminate","status":"success"}\<close> (decoded by \<^verbatim>\<open>json.loads\<close> to the objects
  they denote), the run dispatches exactly \<^verbatim>\<open>click_at(720, 450)\<close> then
  \<^verbatim>\<open>type_text("hello")\<close>, after the initial state query, and ends with a result of status
  \<^verbatim>\<open>success\<close> and \<open>action_count\<close> 2.
\<close>

theorem example_scenario:
  fixes d :: "'c collaborators"
  assumes steps: "2 < steps"
    and viewport: "\<And>c. screen_size (computer d) c = (1440, 900)"
    and environment: "\<And>call c. \<exists>st c'. perform (computer d) call c = (Inr st, c')"
    and prepare: "\<And>b. \<exists>b64. prepare_screenshot d b = Inr b64"
    and reply0: \<open>call_ollama d 0 = Inr (''{"action":"left_click","coordinate":[500,500]}'', t0)\<close>
    and reply1: \<open>call_ollama d 1 = Inr (''{"action":"type","text":"hello"}'', t1)\<close>
    and reply2: \<open>call_ollama d 2 = Inr (''{"action":"terminate","status":"success"}'', t2)\<close>
    and loads0: \<open>json_loads d ''{"action":"left_click","coordinate":[500,500]}'' =
        Loaded (JObj [(''action'', JStr ''left_click''),
                      (''coordinate'', JArr [JInt 500, JInt 500])])\<close>
    and loads1: \<open>json_loads d ''{"action":"type","text":"hello"}'' =
        Loaded (JObj [(''action'', JStr ''type''), (''text'', JStr ''hello'')])\<close>
    and loads2: \<open>json_loads d ''{"action":"terminate","status":"success"}'' =
        Loaded (JObj [(''action'', JStr ''terminate''), (''status'', JStr ''success'')])\<close>
    and task_written: "console d (Task_line task) = None"
    and spinner: "console d Thinking_status = None"
    and table0: "console d (Action_table t0
        [(''action'', JStr ''left_click''), (''coordinate'', JArr [JInt 500, JInt 500])]) = None"
    and table1: "console d (Action_table t1
        [(''action'', JStr ''type''), (''text'', JStr ''hello'')]) = None"
    and table2: "console d (Action_table t2
        [(''action'', JStr ''terminate''), (''status'', JStr ''success'')]) = None"
  shows "\<exists>res s'. run d (init task steps window c) = (Inr res, s') \<and>
           status res = JStr ''success'' \<and> result_action_count res = 2 \<and>
           calls s' = [Current_state, Click_at 720 450, Type_text (JStr ''hello'')] \<and>
           dispatches (calls s') = [Click_at 720 450, Type_text (JStr ''hello'')]"
proof -
  let ?a0 = "[(''action'', JStr ''left_click''), (''coordinate'', JArr [JInt 500, JInt 500])]"
  let ?a1 = "[(''action'', JStr ''type''), (''text'', JStr ''hello'')]"
  let ?a2 = "[(''action'', JStr ''terminate''), (''status'', JStr ''success'')]"
  have parse0: \<open>parse_response d ''{"action":"left_click","coordinate":[500,500]}'' =
      Inr (Some (JObj ?a0))\<close>
    by (simp add: parse_response_def strip_texts loads0)
  have parse1: \<open>parse_response d ''{"action":"type","text":"hello"}'' = Inr (Some (JObj ?a1))\<close>
    by (simp add: parse_response_def strip_texts loads1)
  have parse2: \<open>parse_response d ''{"action":"terminate","status":"success"}'' =
      Inr (Some (JObj ?a2))\<close>
    by (simp add: parse_response_def strip_texts loads2)
  obtain st0 c0 where q0: "perform (computer d) Current_state c = (Inr st0, c0)"
    using environment by blast
  obtain st1 c1 where q1: "perform (computer d) (Click_at 720 450) c0 = (Inr st1, c1)"
    using environment by blast
  obtain st2 c2 where q2: "perform (computer d) (Type_text (JStr ''hello'')) c1 = (Inr st2, c2)"
    using environment by blast
  obtain b0 where p0: "prepare_screenshot d (screenshot st0) = Inr b0" using prepare by blast
  obtain b1 where p1: "prepare_screenshot d (screenshot st1) = Inr b1" using prepare by blast
  obtain b2 where p2: "prepare_screenshot d (screenshot st2) = Inr b2" using prepare by blast
  define s0 where "s0 = (init task steps window c)\<lparr>backend := c0, calls := [Current_state]\<rparr>"
  define h1 where "h1 = update_history window []
    \<lparr>entry_screenshot_b64 = b0, entry_action = JObj ?a0, entry_reasoning = t0\<rparr>"
  define s1 where "s1 = s0\<lparr>inferences := 1, backend := c1,
    calls := [Current_state, Click_at 720 450], action_count := 1, history := h1\<rparr>"
  define h2 where "h2 = update_history window h1
    \<lparr>entry_screenshot_b64 = b1, entry_action = JObj ?a1, entry_reasoning = t1\<rparr>"
  define s2 where "s2 = s1\<lparr>inferences := 2, backend := c2,
    calls := [Current_state, Click_at 720 450, Type_text (JStr ''hello'')],
    action_count := 2, history := h2\<rparr>"
  have start: "run d (init task steps window c) = run_loop d s0 st0"
    using q0 task_written by (simp add: run_def invoke_def s0_def init_def)
  have e0: "execute_action d ?a0 (s0\<lparr>inferences := Suc (inferences s0)\<rparr>) =
      (Inr st1, s0\<lparr>inferences := 1, backend := c1, calls := [Current_state, Click_at 720 450]\<rparr>)"
    using q1 by (simp add: execute_action_def viewport scenario_coordinates get_def invoke_def
        s0_def init_def)
  have step0: "run_one_step d s0 st0 = (Inr (Continue st1), s1)"
    using run_one_step_parsed[of d st0 b0 s0 _ t0 ?a0, OF p0 spinner _ parse0 table0]
      act_on_dispatch[OF _ _ e0, of b0 t0] reply0
    by (simp add: s0_def s1_def h1_def init_def get_def)
  have turn0: "run_loop d s0 st0 = run_loop d s1 st1"
    using run_loop_continue[OF _ step0] steps by (simp add: s0_def s1_def init_def)
  have e1: "execute_action d ?a1 (s1\<lparr>inferences := Suc (inferences s1)\<rparr>) =
      (Inr st2, s1\<lparr>inferences := 2, backend := c2,
         calls := [Current_state, Click_at 720 450, Type_text (JStr ''hello'')]\<rparr>)"
    using q2 by (simp add: execute_action_def viewport scenario_coordinates get_def invoke_def
        s1_def s0_def init_def)
  have step1: "run_one_step d s1 st1 = (Inr (Continue st2), s2)"
    using run_one_step_parsed[of d st1 b1 s1 _ t1 ?a1, OF p1 spinner _ parse1 table1]
      act_on_dispatch[OF _ _ e1, of b1 t1] reply1
    by (simp add: s0_def s1_def s2_def h2_def init_def get_def)
  have turn1: "run_loop d s1 st1 = run_loop d s2 st2"
    using run_loop_continue[OF _ step1] steps by (simp add: s0_def s1_def s2_def init_def)
  have step2: "run_one_step d s2 st2 =
      (Inr (Done (JStr ''success'') (Reason (JStr t2))), s2\<lparr>inferences := Suc (inferences s2)\<rparr>)"
    using run_one_step_parsed[of d st2 b2 s2 _ t2 ?a2, OF p2 spinner _ parse2 table2]
      act_on_terminate[of ?a2 d b2 t2] reply2
    by (simp add: s0_def s1_def s2_def init_def get_def)
  have turn2: "run_loop d s2 st2 =
      (Inr (make_result (s2\<lparr>inferences := Suc (inferences s2)\<rparr>) (JStr ''success'') (url st2)
              (Reason (JStr t2))),
       s2\<lparr>inferences := Suc (inferences s2)\<rparr>)"
    using run_loop_done[OF _ step2] steps by (simp add: s0_def s1_def s2_def init_def)
  show ?thesis
    unfolding start turn0 turn1 turn2
    by (simp add: s2_def dispatches_def make_result_def)
qed

theorem example_scenario_witness:
  "\<exists>res s'. run (stub scenario) (init ''task'' 50 5 ()) = (Inr res, s') \<and>
     status res = JStr ''success'' \<and> result_action_count res = 2 \<and>
     calls s' = [Current_state, Click_at 720 450, Type_text (JStr ''hello'')] \<and>
     dispatches (calls s') = [Click_at 720 450, Type_text (JStr ''hello'')]"
proof -
  let ?d = "stub scenario"
  have 1: "(2::int) < 50" by simp
  have 2: "screen_size (computer ?d) c = (1440, 900)" for c by simp
  have 3: "\<exists>st c'. perform (computer ?d) call c = (Inr st, c')" for call c by simp
  have 4: "\<exists>b64. prepare_screenshot ?d b = Inr b64" for b by simp
  have 5: \<open>call_ollama ?d 0 = Inr (''{"action":"left_click","coordinate":[500,500]}'', ''click'')\<close>
    by (simp add: scenario_def)
  have 6: \<open>call_ollama ?d 1 = Inr (''{"action":"type","text":"hello"}'', ''type'')\<close>
    by (simp add: scenario_def)
  have 7: \<open>call_ollama ?d 2 = Inr (''{"action":"terminate","status":"success"}'', ''done'')\<close>
    by (simp add: scenario_def)
  have 8: \<open>json_loads ?d ''{"action":"left_click","coordinate":[500,500]}'' =
      Loaded (JObj [(''action'', JStr ''left_click''),
                    (''coordinate'', JArr [JInt 500, JInt 500])])\<close>
    by simp code_simp
  have 9: \<open>json_loads ?d ''{"action":"type","text":"hello"}'' =
      Loaded (JObj [(''action'', JStr ''type''), (''text'', JStr ''hello'')])\<close>
    by simp code_simp
  have 10: \<open>json_loads ?d ''{"action":"terminate","status":"success"}'' =
      Loaded (JObj [(''action'', JStr ''terminate''), (''status'', JStr ''success'')])\<close>
    by simp code_simp
  have 11: "console ?d (Task_line ''task'') = None" by code_simp
  have 12: "console ?d Thinking_status = None" by code_simp
  have 13: "console ?d (Action_table ''click''
      [(''action'', JStr ''left_click''), (''coordinate'', JArr [JInt 500, JInt 500])]) = None"
    by code_simp
  have 14: "console ?d (Action_table ''type''
      [(''action'', JStr ''type''), (''text'', JStr ''hello'')]) = None"
    by code_simp
  have 15: "console ?d (Action_table ''done''
      [(''action'', JStr ''terminate''), (''status'', JStr ''success'')]) = None"
    by code_simp
  from example_scenario[of 50 ?d, OF 1 2 3 4 5 6 7 8 9 10 11 12 13 14 15, of 5 "()"]
  show ?thesis .
qed

end
